theory Spec2Isabelle
  imports Complex_Main
begin

section \<open>Numbers, clock readings and library functions\<close>

text \<open>
  The engine of \<^verbatim>\<open>src/index.tsx\<close> is the body of the component
  \<^verbatim>\<open>TabOneScreen\<close>: a handful of mutable references (\<^verbatim>\<open>useRef\<close>) and the
  handlers \<^verbatim>\<open>handleLocationChange\<close>, \<^verbatim>\<open>handleAccelerometer\<close>,
  \<^verbatim>\<open>handleDeviceMotion\<close>, \<^verbatim>\<open>checkCombinedConditions\<close> and
  \<^verbatim>\<open>triggerAlert\<close> that read and write them.

  JavaScript numbers that carry measurements (speeds, accelerations, angles, coordinates)
  are modelled as \<^typ>\<open>real\<close>: the comparisons against the thresholds are the
  mathematical ones, rounding of IEEE doubles is not modelled. Every
  \<^verbatim>\<open>Date.now()\<close> is a whole number of milliseconds, an \<^typ>\<open>int\<close>.
  A handler does not receive the time: it reads the clock itself, and so do
  \<^verbatim>\<open>checkCombinedConditions\<close> and \<^verbatim>\<open>triggerAlert\<close>, each on its
  own. Every reading is therefore an explicit argument of the function that takes it, and
  nothing is assumed about how the readings relate unless a theorem says so.

  The display state (\<^verbatim>\<open>useState\<close>: current speed, magnitude, tilt, latitude,
  longitude, the momentum banner) is written by the handlers and read only by the render
  function; it is left out. \<^verbatim>\<open>alertsEnabled\<close> is the one \<^verbatim>\<open>useState\<close>
  value the logic reads: the field of that name in the engine record is the value that
  \<^verbatim>\<open>triggerAlert\<close> finds in its closure, and no handler writes it. The value
  that the Switch shows and changes is modelled apart from it, in the section on the
  screen.
\<close>

text \<open>\<^verbatim>\<open>Math.atan2(y, x)\<close>, on finite arguments (signed zeros and NaN aside).\<close>

definition atan2 :: "real \<Rightarrow> real \<Rightarrow> real" where
  "atan2 y x =
     (if 0 < x then arctan (y / x)
      else if x < 0 then (if 0 \<le> y then arctan (y / x) + pi else arctan (y / x) - pi)
      else if 0 < y then pi / 2
      else if y < 0 then - (pi / 2)
      else 0)"

subsection \<open>Thresholds (lines 21--32)\<close>

definition SPEED_DROP_THRESHOLD_KMH :: real where
  "SPEED_DROP_THRESHOLD_KMH = 40"

definition ACCEL_MAGNITUDE_THRESHOLD_G :: real where
  "ACCEL_MAGNITUDE_THRESHOLD_G = 3"

definition ACCEL_DURATION_THRESHOLD_MS :: int where
  "ACCEL_DURATION_THRESHOLD_MS = 60"

definition TILT_DANGER_THRESHOLD_DEG :: real where
  "TILT_DANGER_THRESHOLD_DEG = 30"

definition COMBINED_ALERT_WINDOW_MS :: int where
  "COMBINED_ALERT_WINDOW_MS = 2000"

definition ALERT_COOLDOWN_MS :: int where
  "ALERT_COOLDOWN_MS = 10000"

section \<open>The data model\<close>

text \<open>
  The three detection flags (lines 53--55). A field named \<^verbatim>\<open>timestamp\<close> occurs
  in each of the three object types, and \<^verbatim>\<open>value\<close> is reserved, so the fields
  carry a prefix: \<open>sd_\<close> for \<^verbatim>\<open>speedDropDetected\<close>, \<open>ha_\<close> for
  \<^verbatim>\<open>highAccelerationDetected\<close>, \<open>ht_\<close> for \<^verbatim>\<open>highTiltDetected\<close>.
\<close>

record speed_drop =
  sd_timestamp :: int
  sd_value :: real

record high_acceleration =
  ha_timestamp :: int
  ha_magnitude :: real
  ha_duration :: int

record high_tilt =
  ht_timestamp :: int
  ht_tilt :: real

record coordinates =
  latitude :: real
  longitude :: real

text \<open>The references of lines 47--59; \<open>None\<close> is \<^verbatim>\<open>null\<close>.\<close>

record engine =
  lastSpeed :: "real option"
  lastLocationTimestamp :: "int option"
  accelPeakTimestamp :: "int option"
  alertsEnabled :: bool
  speedDropDetected :: "speed_drop option"
  highAccelerationDetected :: "high_acceleration option"
  highTiltDetected :: "high_tilt option"
  lastAlertTimestamp :: int
  lastKnownCoordinates :: "coordinates option"

text \<open>The engine as the component constructs it on mount.\<close>

definition initial :: engine where
  "initial =
     \<lparr> lastSpeed = None, lastLocationTimestamp = None, accelPeakTimestamp = None,
       alertsEnabled = True, speedDropDetected = None, highAccelerationDetected = None,
       highTiltDetected = None, lastAlertTimestamp = 0, lastKnownCoordinates = None \<rparr>"

text \<open>
  \<^verbatim>\<open>Location.LocationObject\<close>: the coordinates carry a speed in m/s that may be
  \<^verbatim>\<open>null\<close>; the sample carries the time at which the fix was taken.
\<close>

record LocationObject =
  coords_latitude :: real
  coords_longitude :: real
  coords_speed :: "real option"
  loc_timestamp :: int

text \<open>
  \<^verbatim>\<open>DeviceMotionMeasurement\<close>, the two fields that \<^verbatim>\<open>handleDeviceMotion\<close>
  reads; a vector is the triple of its \<^verbatim>\<open>x\<close>, \<^verbatim>\<open>y\<close>, \<^verbatim>\<open>z\<close>.
\<close>

record DeviceMotionMeasurement =
  accelerationIncludingGravity :: "(real \<times> real \<times> real) option"
  acceleration :: "(real \<times> real \<times> real) option"

subsection \<open>Alerts and what the engine emits\<close>

datatype alert_type = SpeedDrop | HighAcceleration | HighTilt | Combined

text \<open>The optional \<^verbatim>\<open>data\<close> argument of \<^verbatim>\<open>triggerAlert\<close> (line 312).\<close>

record alert_data =
  data_latitude :: "real option"
  data_longitude :: "real option"
  data_speedKmh :: "real option"
  data_speedDrop :: "real option"
  data_magnitudeG :: "real option"
  data_duration :: "int option"
  data_tilt :: "real option"

text \<open>
  The message of lines 322--346, as the numbers it embeds rather than as a string: an
  absent number is the text \<^verbatim>\<open>N/A\<close>, and the last argument is the pair of
  coordinates of the map link, absent when the link is the empty string.
\<close>

datatype message =
    SpeedDropMessage "real option" "real option" "(real \<times> real) option"
  | HighAccelerationMessage "real option" "int option" "(real \<times> real) option"
  | HighTiltMessage "real option" "(real \<times> real) option"
  | CombinedMessage "real option" "real option" "real option" "(real \<times> real) option"

text \<open>
  What a pass through the engine does to the outside:
  \<^item> \<open>AlertSuppressed\<close>: the \<^verbatim>\<open>console.log\<close> of line 316, with the type and
    the data of the call;
  \<^item> \<open>AlertSent\<close>: lines 348--362, the log, the dialog and the POST of the message to
    the delivery channel, tagged with the clock reading of line 314;
  \<^item> \<open>SmsErrorShown\<close>: the dialog of lines 364--367, with its text.
\<close>

datatype event =
    AlertSuppressed alert_type alert_data
  | AlertSent int message alert_data
  | SmsErrorShown string

subsection \<open>The delivery channel: \<^verbatim>\<open>src/server.js\<close>\<close>

text \<open>
  The route \<^verbatim>\<open>POST /send-alert\<close> (lines 15--27 of \<^verbatim>\<open>server.js\<close>) awaits
  the message provider and answers with status 200 and
  \<^verbatim>\<open>{success: true, sid}\<close>, or, when the provider throws, with status 500 and
  \<^verbatim>\<open>{success: false, error}\<close>. \<open>resp_text\<close> is the \<^verbatim>\<open>sid\<close> or the
  \<^verbatim>\<open>error\<close> of the body.
\<close>

datatype provider_result = MessageCreated string | ProviderError string

record http_response =
  resp_status :: nat
  resp_success :: bool
  resp_text :: string

definition send_alert :: "provider_result \<Rightarrow> http_response" where
  "send_alert r =
     (case r of
        MessageCreated sid \<Rightarrow> \<lparr>resp_status = 200, resp_success = True, resp_text = sid\<rparr>
      | ProviderError e \<Rightarrow> \<lparr>resp_status = 500, resp_success = False, resp_text = e\<rparr>)"

text \<open>
  How the \<^verbatim>\<open>fetch\<close> of line 352 of \<^verbatim>\<open>index.tsx\<close> settles: it resolves
  with the response of the server, whatever its status, or it is rejected (the server is
  not reached) with an error that carries \<^verbatim>\<open>err.message\<close>.
\<close>

datatype fetch_outcome = Resolved http_response | Rejected "string option"

section \<open>The dispatcher: \<^verbatim>\<open>triggerAlert\<close> (lines 310--369)\<close>

text \<open>
  The function is \<^verbatim>\<open>async\<close> and is called without \<^verbatim>\<open>await\<close>: its body
  runs synchronously up to the \<^verbatim>\<open>await fetch\<close>, so the gate, the write of
  \<^verbatim>\<open>lastAlertTimestamp\<close> and the composition of the message (which reads the three
  detection references) happen inside the caller's pass. \<open>triggerAlert\<close> is that
  synchronous part; \<open>triggerAlert_settled\<close> is the continuation that runs when the
  request has settled, at whatever state the engine has by then. The response that the
  \<^verbatim>\<open>await\<close> yields is not bound to a name and not read (lines 351--362); only
  the \<^verbatim>\<open>catch\<close> block does something.
\<close>

definition coordinatesString :: "alert_data \<Rightarrow> (real \<times> real) option" where
  "coordinatesString d =
     (case data_latitude d of
        None \<Rightarrow> None
      | Some la \<Rightarrow> (case data_longitude d of None \<Rightarrow> None | Some lo \<Rightarrow> Some (la, lo)))"

definition composeMessage :: "alert_type \<Rightarrow> alert_data \<Rightarrow> engine \<Rightarrow> message" where
  "composeMessage ty d s =
     (case ty of
        SpeedDrop \<Rightarrow> SpeedDropMessage (data_speedKmh d) (data_speedDrop d) (coordinatesString d)
      | HighAcceleration \<Rightarrow>
          HighAccelerationMessage (data_magnitudeG d) (data_duration d) (coordinatesString d)
      | HighTilt \<Rightarrow> HighTiltMessage (data_tilt d) (coordinatesString d)
      | Combined \<Rightarrow>
          CombinedMessage (map_option sd_value (speedDropDetected s))
            (map_option ha_magnitude (highAccelerationDetected s))
            (map_option ht_tilt (highTiltDetected s)) (coordinatesString d))"

definition triggerAlert :: "int \<Rightarrow> alert_type \<Rightarrow> alert_data \<Rightarrow> engine \<Rightarrow> event list \<times> engine" where
  "triggerAlert now ty d s =
     (if \<not> alertsEnabled s \<or> now - lastAlertTimestamp s < ALERT_COOLDOWN_MS
      then ([AlertSuppressed ty d], s)
      else
        (let s' = s\<lparr>lastAlertTimestamp := now\<rparr>
         in ([AlertSent now (composeMessage ty d s') d], s')))"

definition triggerAlert_settled :: "fetch_outcome \<Rightarrow> engine \<Rightarrow> event list \<times> engine" where
  "triggerAlert_settled out s =
     (case out of
        Resolved response \<Rightarrow> ([], s)
      | Rejected m \<Rightarrow>
          ([SmsErrorShown
              (case m of
                 None \<Rightarrow> ''Failed to send SMS notification.''
               | Some t \<Rightarrow> if t = [] then ''Failed to send SMS notification.'' else t)], s))"

section \<open>The correlation check: \<^verbatim>\<open>checkCombinedConditions\<close> (lines 287--307)\<close>

text \<open>The three local constants of lines 290--292, at the reading \<open>now\<close> of line 288.\<close>

definition isSpeedDropActive :: "int \<Rightarrow> engine \<Rightarrow> bool" where
  "isSpeedDropActive now s =
     (case speedDropDetected s of
        None \<Rightarrow> False
      | Some d \<Rightarrow> now - sd_timestamp d < COMBINED_ALERT_WINDOW_MS)"

definition isHighAccelerationActive :: "int \<Rightarrow> engine \<Rightarrow> bool" where
  "isHighAccelerationActive now s =
     (case highAccelerationDetected s of
        None \<Rightarrow> False
      | Some d \<Rightarrow> now - ha_timestamp d < COMBINED_ALERT_WINDOW_MS)"

definition isHighTiltActive :: "int \<Rightarrow> engine \<Rightarrow> bool" where
  "isHighTiltActive now s =
     (case highTiltDetected s of
        None \<Rightarrow> False
      | Some d \<Rightarrow> now - ht_timestamp d < COMBINED_ALERT_WINDOW_MS)"

text \<open>The data of the call of lines 297--300: only the last known coordinates.\<close>

definition combinedData :: "engine \<Rightarrow> alert_data" where
  "combinedData s =
     \<lparr> data_latitude = map_option latitude (lastKnownCoordinates s),
       data_longitude = map_option longitude (lastKnownCoordinates s),
       data_speedKmh = None, data_speedDrop = None, data_magnitudeG = None,
       data_duration = None, data_tilt = None \<rparr>"

text \<open>
  \<open>now\<close> is the reading of line 288, \<open>nowAlert\<close> the one \<^verbatim>\<open>triggerAlert\<close>
  takes at line 314 when it is called.
\<close>

definition checkCombinedConditions :: "int \<Rightarrow> int \<Rightarrow> engine \<Rightarrow> event list \<times> engine" where
  "checkCombinedConditions now nowAlert s =
     (if isSpeedDropActive now s \<and> isHighAccelerationActive now s \<and> isHighTiltActive now s
      then
        (let (evs, s') = triggerAlert nowAlert Combined (combinedData s) s
         in (evs, s'\<lparr>speedDropDetected := None, highAccelerationDetected := None,
                     highTiltDetected := None\<rparr>))
      else ([], s))"

section \<open>The metrics (lines 157, 202, 226--228)\<close>

definition speedKmh :: "LocationObject \<Rightarrow> real" where
  "speedKmh loc = (case coords_speed loc of None \<Rightarrow> 0 | Some v \<Rightarrow> v) * 3.6"

definition magnitudeG :: "real \<Rightarrow> real \<Rightarrow> real \<Rightarrow> real" where
  "magnitudeG x y z = sqrt (x * x + y * y + z * z)"

definition pitch :: "real \<Rightarrow> real \<Rightarrow> real \<Rightarrow> real" where
  "pitch x y z = - atan2 y (sqrt (x * x + z * z))"

definition roll :: "real \<Rightarrow> real \<Rightarrow> real \<Rightarrow> real" where
  "roll x y z = atan2 x (sqrt (y * y + z * z))"

definition tilt :: "real \<Rightarrow> real \<Rightarrow> real \<Rightarrow> real" where
  "tilt x y z = max \<bar>pitch x y z\<bar> \<bar>roll x y z\<bar> * (180 / pi)"

section \<open>The handlers\<close>

subsection \<open>\<^verbatim>\<open>handleLocationChange\<close> (lines 156--199)\<close>

text \<open>
  \<open>now\<close> is the reading of line 171; \<open>nowCheck\<close> and \<open>nowAlert\<close> are the
  readings of the correlation check and of the dispatcher, taken only when line 185 runs.
  The sample's own \<open>loc_timestamp\<close> is not read. \<open>storeCoordinates\<close> is lines
  163--168; its test is JavaScript truthiness: a coordinate equal to zero does not count.
\<close>

definition storeCoordinates :: "LocationObject \<Rightarrow> engine \<Rightarrow> engine" where
  "storeCoordinates loc s =
     (if coords_latitude loc \<noteq> 0 \<and> coords_longitude loc \<noteq> 0
      then s\<lparr>lastKnownCoordinates :=
              Some \<lparr>latitude = coords_latitude loc, longitude = coords_longitude loc\<rparr>\<rparr>
      else s)"

definition handleLocationChange ::
  "LocationObject \<Rightarrow> int \<Rightarrow> int \<Rightarrow> int \<Rightarrow> engine \<Rightarrow> event list \<times> engine" where
  "handleLocationChange loc now nowCheck nowAlert s =
     (let s1 = storeCoordinates loc s;
          (evs, s2) =
            (case lastSpeed s1 of
               None \<Rightarrow> ([], s1)
             | Some ls \<Rightarrow>
                 (case lastLocationTimestamp s1 of
                    None \<Rightarrow> ([], s1)
                  | Some lt \<Rightarrow>
                      (let timeDiff = real_of_int (now - lt) / 1000;
                           speedDrop = ls - speedKmh loc
                       in if timeDiff \<le> 1 \<and> speedDrop \<ge> SPEED_DROP_THRESHOLD_KMH \<and> ls > 5
                          then checkCombinedConditions nowCheck nowAlert
                                 (s1\<lparr>speedDropDetected :=
                                       Some \<lparr>sd_timestamp = now, sd_value = speedDrop\<rparr>\<rparr>)
                          else if (case speedDropDetected s1 of
                                     None \<Rightarrow> False
                                   | Some d \<Rightarrow> now - sd_timestamp d > COMBINED_ALERT_WINDOW_MS)
                          then ([], s1\<lparr>speedDropDetected := None\<rparr>)
                          else ([], s1))))
      in (evs, s2\<lparr>lastSpeed := Some (speedKmh loc), lastLocationTimestamp := Some now\<rparr>))"

subsection \<open>The two detectors of the motion handlers\<close>

text \<open>
  \<^verbatim>\<open>handleAccelerometer\<close> and \<^verbatim>\<open>handleDeviceMotion\<close> contain the same two
  blocks, word for word: the acceleration detector (lines 207--223 and 251--267) and the
  tilt detector (lines 231--236 and 275--280). Each block is one definition here, used
  by both handlers. \<open>now\<close> is the handler's reading (lines 205, 240); each block has
  its own pair of readings for the correlation check it may call.
\<close>

definition detectHighAcceleration ::
  "real \<Rightarrow> int \<Rightarrow> int \<Rightarrow> int \<Rightarrow> engine \<Rightarrow> event list \<times> engine" where
  "detectHighAcceleration m now nowCheck nowAlert s =
     (if m \<ge> ACCEL_MAGNITUDE_THRESHOLD_G
      then
        (case accelPeakTimestamp s of
           None \<Rightarrow> ([], s\<lparr>accelPeakTimestamp := Some now\<rparr>)
         | Some p \<Rightarrow>
             if now - p \<ge> ACCEL_DURATION_THRESHOLD_MS
             then checkCombinedConditions nowCheck nowAlert
                    (s\<lparr>highAccelerationDetected :=
                         Some \<lparr>ha_timestamp = now, ha_magnitude = m, ha_duration = now - p\<rparr>\<rparr>)
             else ([], s))
      else
        (let s1 = s\<lparr>accelPeakTimestamp := None\<rparr>
         in if (case highAccelerationDetected s1 of
                  None \<Rightarrow> False
                | Some d \<Rightarrow> now - ha_timestamp d > COMBINED_ALERT_WINDOW_MS)
            then ([], s1\<lparr>highAccelerationDetected := None\<rparr>)
            else ([], s1)))"

definition detectHighTilt ::
  "real \<Rightarrow> int \<Rightarrow> int \<Rightarrow> int \<Rightarrow> engine \<Rightarrow> event list \<times> engine" where
  "detectHighTilt t now nowCheck nowAlert s =
     (if t \<ge> TILT_DANGER_THRESHOLD_DEG
      then checkCombinedConditions nowCheck nowAlert
             (s\<lparr>highTiltDetected := Some \<lparr>ht_timestamp = now, ht_tilt = t\<rparr>\<rparr>)
      else if (case highTiltDetected s of
                 None \<Rightarrow> False
               | Some d \<Rightarrow> now - ht_timestamp d > COMBINED_ALERT_WINDOW_MS)
      then ([], s\<lparr>highTiltDetected := None\<rparr>)
      else ([], s))"

text \<open>
  The readings of one motion sample: the handler's own, then one pair for the check
  after the acceleration detector and one pair for the check after the tilt detector.
\<close>

record readings =
  r_now :: int
  r_check1 :: int
  r_alert1 :: int
  r_check2 :: int
  r_alert2 :: int

definition motionPass :: "real \<Rightarrow> real \<Rightarrow> real \<Rightarrow> readings \<Rightarrow> engine \<Rightarrow> event list \<times> engine" where
  "motionPass x y z r s =
     (let (e1, s1) = detectHighAcceleration (magnitudeG x y z) (r_now r) (r_check1 r) (r_alert1 r) s;
          (e2, s2) = detectHighTilt (tilt x y z) (r_now r) (r_check2 r) (r_alert2 r) s1
      in (e1 @ e2, s2))"

subsection \<open>\<^verbatim>\<open>handleAccelerometer\<close> (lines 201--237)\<close>

definition handleAccelerometer ::
  "real \<times> real \<times> real \<Rightarrow> readings \<Rightarrow> engine \<Rightarrow> event list \<times> engine" where
  "handleAccelerometer v r s = (case v of (x, y, z) \<Rightarrow> motionPass x y z r s)"

subsection \<open>\<^verbatim>\<open>handleDeviceMotion\<close> (lines 239--284)\<close>

definition handleDeviceMotion ::
  "DeviceMotionMeasurement \<Rightarrow> readings \<Rightarrow> engine \<Rightarrow> event list \<times> engine" where
  "handleDeviceMotion motion r s =
     (case (case accelerationIncludingGravity motion of
              Some v \<Rightarrow> Some v
            | None \<Rightarrow> acceleration motion) of
        None \<Rightarrow> ([], s)
      | Some (x, y, z) \<Rightarrow> motionPass x y z r s)"

section \<open>Runs of the engine\<close>

text \<open>
  The host delivers one event at a time: a location sample, an accelerometer sample, a
  device-motion sample (each with the clock readings taken while it is processed), or the
  settling of a delivery request that an earlier pass started.
\<close>

datatype input =
    LocationInput LocationObject int int int
  | AccelerometerInput "real \<times> real \<times> real" readings
  | DeviceMotionInput DeviceMotionMeasurement readings
  | FetchSettled fetch_outcome

fun step :: "input \<Rightarrow> engine \<Rightarrow> event list \<times> engine" where
  "step (LocationInput loc now nowCheck nowAlert) s = handleLocationChange loc now nowCheck nowAlert s"
| "step (AccelerometerInput v r) s = handleAccelerometer v r s"
| "step (DeviceMotionInput motion r) s = handleDeviceMotion motion r s"
| "step (FetchSettled out) s = triggerAlert_settled out s"

fun run :: "input list \<Rightarrow> engine \<Rightarrow> event list \<times> engine" where
  "run [] s = ([], s)"
| "run (i # ins) s =
     (let (e1, s1) = step i s; (e2, s2) = run ins s1 in (e1 @ e2, s2))"

section \<open>The screen: the Switch and the listeners\<close>

text \<open>
  \<^verbatim>\<open>alertsEnabled\<close> is a state variable of the component (line 50, initially
  \<^verbatim>\<open>true\<close>): every render has its own constant of that name, and the Switch
  (lines 420--424) shows the one of the latest render and replaces it by its negation.
  The listeners are registered once, by the effect of lines 68--152 whose dependency
  list is empty: the handlers that the sensors call are those of the first render, and
  the \<^verbatim>\<open>triggerAlert\<close> they reach reads the constant of that render. A later
  render defines new handlers, which nothing registers.

  So the screen has two parts: the value that the Switch shows, and the engine, whose
  field \<open>alertsEnabled\<close> is the constant of the first render. Changing the Switch
  writes the first part only.
\<close>

record screen =
  renderedAlertsEnabled :: bool
  listeners :: engine

definition mounted :: screen where
  "mounted = \<lparr> renderedAlertsEnabled = True, listeners = initial \<rparr>"

datatype host_event = SwitchChanged | Delivered input

fun hostStep :: "host_event \<Rightarrow> screen \<Rightarrow> event list \<times> screen" where
  "hostStep SwitchChanged a = ([], a\<lparr>renderedAlertsEnabled := \<not> renderedAlertsEnabled a\<rparr>)"
| "hostStep (Delivered i) a =
     (let (evs, s') = step i (listeners a) in (evs, a\<lparr>listeners := s'\<rparr>))"

fun hostRun :: "host_event list \<Rightarrow> screen \<Rightarrow> event list \<times> screen" where
  "hostRun [] a = ([], a)"
| "hostRun (h # hs) a =
     (let (e1, a1) = hostStep h a; (e2, a2) = hostRun hs a1 in (e1 @ e2, a2))"

section \<open>Observations on runs\<close>

text \<open>
  The definitions of this section are not code of the engine: they read off what a run
  emitted, to state the claims about whole runs.

  The readings at which alerts were sent, in order, and the property that each lies at
  least the cooldown after the one before, the first after the last alert time \<open>l\<close>
  that the run started with.
\<close>

fun sentTimes :: "event list \<Rightarrow> int list" where
  "sentTimes [] = []"
| "sentTimes (AlertSent t m d # evs) = t # sentTimes evs"
| "sentTimes (e # evs) = sentTimes evs"

fun spaced :: "int \<Rightarrow> int list \<Rightarrow> bool" where
  "spaced l [] = True"
| "spaced l (t # ts) = (t - l \<ge> ALERT_COOLDOWN_MS \<and> spaced t ts)"

text \<open>The inputs that settle a delivery request, and the dialogs that report a failure.\<close>

fun isSettled :: "input \<Rightarrow> bool" where
  "isSettled (FetchSettled out) = True"
| "isSettled i = False"

fun isSmsError :: "event \<Rightarrow> bool" where
  "isSmsError (SmsErrorShown t) = True"
| "isSmsError e = False"

text \<open>
  What a piece of a run does to the dispatcher's state: the alerts it sent are spaced by
  the cooldown, and the last alert time afterwards is the reading of the last of them.
\<close>

definition gate_ok :: "engine \<Rightarrow> event list \<Rightarrow> engine \<Rightarrow> bool" where
  "gate_ok s evs s' \<longleftrightarrow>
     spaced (lastAlertTimestamp s) (sentTimes evs)
     \<and> lastAlertTimestamp s' = last (lastAlertTimestamp s # sentTimes evs)"

text \<open>
  The time and magnitude of the motion sample that an input feeds to the acceleration
  detector, if it feeds one: a device-motion sample without an acceleration vector
  feeds none.
\<close>

fun motionSample :: "input \<Rightarrow> (int \<times> real) option" where
  "motionSample (LocationInput loc now nowCheck nowAlert) = None"
| "motionSample (AccelerometerInput v r) =
     (case v of (x, y, z) \<Rightarrow> Some (r_now r, magnitudeG x y z))"
| "motionSample (DeviceMotionInput motion r) =
     (case (case accelerationIncludingGravity motion of
              Some v \<Rightarrow> Some v
            | None \<Rightarrow> acceleration motion) of
        None \<Rightarrow> None
      | Some (x, y, z) \<Rightarrow> Some (r_now r, magnitudeG x y z))"
| "motionSample (FetchSettled out) = None"

definition motionTrace :: "input list \<Rightarrow> (int \<times> real) list" where
  "motionTrace ins = List.map_filter motionSample ins"

text \<open>
  The arming time that a sequence of motion samples defines: the time of the first
  sample of the unbroken run of samples of at least 3 g that ends the sequence, absent
  when the last sample is below 3 g or there is no sample.
\<close>

definition armingTime :: "(int \<times> real) list \<Rightarrow> int option" where
  "armingTime tr =
     (case takeWhile (\<lambda>(t, m). m \<ge> ACCEL_MAGNITUDE_THRESHOLD_G) (rev tr) of
        [] \<Rightarrow> None
      | x # xs \<Rightarrow> Some (fst (last (x # xs))))"

text \<open>
  The reading that the handler of an input takes on entry (lines 171, 205, 240), and the
  property that no stored detection carries a timestamp after \<open>T\<close>.
\<close>

fun handlerNow :: "input \<Rightarrow> int option" where
  "handlerNow (LocationInput loc now nowCheck nowAlert) = Some now"
| "handlerNow (AccelerometerInput v r) = Some (r_now r)"
| "handlerNow (DeviceMotionInput motion r) = Some (r_now r)"
| "handlerNow (FetchSettled out) = None"

definition stampsUpTo :: "int \<Rightarrow> engine \<Rightarrow> bool" where
  "stampsUpTo T s \<longleftrightarrow>
     (case speedDropDetected s of None \<Rightarrow> True | Some d \<Rightarrow> sd_timestamp d \<le> T)
     \<and> (case highAccelerationDetected s of None \<Rightarrow> True | Some d \<Rightarrow> ha_timestamp d \<le> T)
     \<and> (case highTiltDetected s of None \<Rightarrow> True | Some d \<Rightarrow> ht_timestamp d \<le> T)"

section \<open>Basic facts\<close>

lemmas thresholds =
  SPEED_DROP_THRESHOLD_KMH_def ACCEL_MAGNITUDE_THRESHOLD_G_def
  ACCEL_DURATION_THRESHOLD_MS_def TILT_DANGER_THRESHOLD_DEG_def
  COMBINED_ALERT_WINDOW_MS_def ALERT_COOLDOWN_MS_def

lemmas active_defs =
  isSpeedDropActive_def isHighAccelerationActive_def isHighTiltActive_def

text \<open>The correlation check when the three detections are active: the exact result.\<close>

lemma checkCombinedConditions_fire:
  assumes "isSpeedDropActive now s" "isHighAccelerationActive now s" "isHighTiltActive now s"
  shows "checkCombinedConditions now nowAlert s =
     (fst (triggerAlert nowAlert Combined (combinedData s) s),
      (snd (triggerAlert nowAlert Combined (combinedData s) s))
        \<lparr>speedDropDetected := None, highAccelerationDetected := None,
         highTiltDetected := None\<rparr>)"
  using assms by (simp add: checkCombinedConditions_def split_beta)

lemma checkCombinedConditions_idle:
  assumes "\<not> (isSpeedDropActive now s \<and> isHighAccelerationActive now s \<and> isHighTiltActive now s)"
  shows "checkCombinedConditions now nowAlert s = ([], s)"
  using assms by (auto simp add: checkCombinedConditions_def)

lemma triggerAlert_blocked:
  assumes "\<not> alertsEnabled s \<or> now - lastAlertTimestamp s < ALERT_COOLDOWN_MS"
  shows "triggerAlert now ty d s = ([AlertSuppressed ty d], s)"
  using assms by (simp add: triggerAlert_def)

lemma triggerAlert_passed:
  assumes "alertsEnabled s" "now - lastAlertTimestamp s \<ge> ALERT_COOLDOWN_MS"
  shows "triggerAlert now ty d s =
     ([AlertSent now (composeMessage ty d s) d], s\<lparr>lastAlertTimestamp := now\<rparr>)"
  using assms by (cases ty) (simp_all add: triggerAlert_def composeMessage_def Let_def)

subsection \<open>The cooldown along runs\<close>

lemma run_append:
  "run (xs @ ys) s =
     (fst (run xs s) @ fst (run ys (snd (run xs s))), snd (run ys (snd (run xs s))))"
  by (induction xs arbitrary: s) (simp_all add: split_beta)

lemma sentTimes_append: "sentTimes (xs @ ys) = sentTimes xs @ sentTimes ys"
  by (induction xs rule: sentTimes.induct) simp_all

lemma spaced_append:
  "spaced l (xs @ ys) \<longleftrightarrow> spaced l xs \<and> spaced (last (l # xs)) ys"
  by (induction xs arbitrary: l) simp_all

text \<open>What the dispatcher emits and writes, in one statement.\<close>

lemma triggerAlert_cases:
  "(triggerAlert now ty d s = ([AlertSuppressed ty d], s)
      \<and> (\<not> alertsEnabled s \<or> now - lastAlertTimestamp s < ALERT_COOLDOWN_MS))
   \<or> (triggerAlert now ty d s =
         ([AlertSent now (composeMessage ty d s) d], s\<lparr>lastAlertTimestamp := now\<rparr>)
      \<and> alertsEnabled s \<and> now - lastAlertTimestamp s \<ge> ALERT_COOLDOWN_MS)"
  by (cases "\<not> alertsEnabled s \<or> now - lastAlertTimestamp s < ALERT_COOLDOWN_MS")
    (simp_all add: triggerAlert_blocked triggerAlert_passed)

lemma gate_ok_triggerAlert:
  "gate_ok s (fst (triggerAlert now ty d s)) (snd (triggerAlert now ty d s))"
  using triggerAlert_cases [of now ty d s] by (auto simp add: gate_ok_def)

lemma gate_ok_check:
  "gate_ok s (fst (checkCombinedConditions now na s)) (snd (checkCombinedConditions now na s))"
  using gate_ok_triggerAlert [of s na Combined "combinedData s"]
  by (simp add: checkCombinedConditions_def split_beta gate_ok_def)

lemma gate_ok_upd:
  assumes "lastAlertTimestamp s0 = lastAlertTimestamp s" "gate_ok s0 evs s1"
    "lastAlertTimestamp s' = lastAlertTimestamp s1"
  shows "gate_ok s evs s'"
  using assms by (simp add: gate_ok_def)

lemma gate_ok_nil: "lastAlertTimestamp s' = lastAlertTimestamp s \<Longrightarrow> gate_ok s [] s'"
  by (simp add: gate_ok_def)

lemma gate_ok_trans:
  assumes "gate_ok s e1 s1" "gate_ok s1 e2 s2"
  shows "gate_ok s (e1 @ e2) s2"
  using assms by (auto simp add: gate_ok_def sentTimes_append spaced_append)

lemma gate_ok_location:
  "gate_ok s (fst (handleLocationChange loc now nc na s)) (snd (handleLocationChange loc now nc na s))"
proof -
  have a: "lastAlertTimestamp (storeCoordinates loc s) = lastAlertTimestamp s"
    by (simp add: storeCoordinates_def)
  show ?thesis
    unfolding handleLocationChange_def Let_def split_beta
    by (auto split: option.splits intro!: gate_ok_nil gate_ok_upd [OF _ gate_ok_check] simp add: a)
qed

lemma gate_ok_accel:
  "gate_ok s (fst (detectHighAcceleration m now nc na s)) (snd (detectHighAcceleration m now nc na s))"
  unfolding detectHighAcceleration_def Let_def
  by (auto split: option.splits intro!: gate_ok_nil gate_ok_upd [OF _ gate_ok_check])

lemma gate_ok_tilt:
  "gate_ok s (fst (detectHighTilt m now nc na s)) (snd (detectHighTilt m now nc na s))"
  unfolding detectHighTilt_def Let_def
  by (auto split: option.splits intro!: gate_ok_nil gate_ok_upd [OF _ gate_ok_check])

lemma gate_ok_motionPass:
  "gate_ok s (fst (motionPass x y z r s)) (snd (motionPass x y z r s))"
  unfolding motionPass_def Let_def split_beta
  by (simp add: gate_ok_trans [OF gate_ok_accel gate_ok_tilt])

lemma gate_ok_step: "gate_ok s (fst (step i s)) (snd (step i s))"
proof (cases i)
  case (LocationInput loc n c a)
  then show ?thesis by (simp add: gate_ok_location)
next
  case (AccelerometerInput v r)
  then show ?thesis
    by (cases v) (simp add: handleAccelerometer_def gate_ok_motionPass)
next
  case (DeviceMotionInput mo r)
  then show ?thesis
    by (auto simp add: handleDeviceMotion_def gate_ok_motionPass gate_ok_nil split: option.splits)
next
  case (FetchSettled out)
  then show ?thesis
    by (auto simp add: triggerAlert_settled_def gate_ok_def split: fetch_outcome.splits)
qed

lemma gate_ok_run: "gate_ok s (fst (run ins s)) (snd (run ins s))"
proof (induction ins arbitrary: s)
  case Nil
  then show ?case by (simp add: gate_ok_def)
next
  case (Cons i ins)
  show ?case
    using gate_ok_trans [OF gate_ok_step [of s i] Cons.IH [of "snd (step i s)"]]
    by (simp add: split_beta)
qed

lemma spaced_last_ge: "spaced l ts \<Longrightarrow> l \<le> last (l # ts)"
proof (induction ts arbitrary: l)
  case Nil
  then show ?case by simp
next
  case (Cons t ts)
  then have "t \<le> last (t # ts)" and "l \<le> t" by (simp_all add: thresholds)
  then show ?case by simp
qed

lemma spaced_pairwise:
  "spaced l ts \<Longrightarrow> i < j \<Longrightarrow> j < length ts \<Longrightarrow> ts ! j - ts ! i \<ge> ALERT_COOLDOWN_MS"
proof (induction ts arbitrary: l i j)
  case Nil
  then show ?case by simp
next
  case (Cons t ts)
  show ?case
  proof (cases i)
    case 0
    then obtain j' where j: "j = Suc j'" using Cons.prems by (cases j) auto
    have sp: "spaced t ts" and "j' < length ts" using Cons.prems j by auto
    have "\<And>k. k < length ts \<Longrightarrow> spaced t ts \<Longrightarrow> ts ! k - t \<ge> ALERT_COOLDOWN_MS"
    proof -
      fix k assume "k < length ts" "spaced t ts"
      then show "ts ! k - t \<ge> ALERT_COOLDOWN_MS"
      proof (induction ts arbitrary: t k)
        case Nil
        then show ?case by simp
      next
        case (Cons u us)
        show ?case
        proof (cases k)
          case 0
          then show ?thesis using Cons.prems by simp
        next
          case (Suc k')
          then have "us ! k' - u \<ge> ALERT_COOLDOWN_MS" using Cons by auto
          moreover have "u - t \<ge> ALERT_COOLDOWN_MS" using Cons.prems by simp
          ultimately show ?thesis using Suc by (simp add: thresholds)
        qed
      qed
    qed
    from this [OF \<open>j' < length ts\<close> sp] show ?thesis using 0 j by simp
  next
    case (Suc i')
    then obtain j' where j: "j = Suc j'" using Cons.prems by (cases j) auto
    then show ?thesis using Cons.IH [of t i' j'] Cons.prems Suc by simp
  qed
qed

subsection \<open>Metrics of some concrete vectors\<close>

lemma magnitudeG_x_axis: "magnitudeG x 0 0 = \<bar>x\<bar>"
  by (simp add: magnitudeG_def)

lemma tilt_x_axis: "x \<noteq> 0 \<Longrightarrow> tilt x 0 0 = 90"
  by (simp add: tilt_def pitch_def roll_def atan2_def)

lemma tilt_z_axis: "tilt 0 0 z = 0"
  by (simp add: tilt_def pitch_def roll_def atan2_def)

lemma magnitudeG_z_axis: "magnitudeG 0 0 z = \<bar>z\<bar>"
  by (simp add: magnitudeG_def)

lemma tilt_45: "tilt 1 0 1 = 45"
  by (simp add: tilt_def pitch_def roll_def atan2_def arctan_one)

lemma magnitudeG_45: "magnitudeG 1 0 1 < 3"
proof -
  have "sqrt 2 < 3" by (rule real_less_lsqrt) simp_all
  then show ?thesis by (simp add: magnitudeG_def)
qed

text \<open>The unfolding rules that evaluate a run on concrete inputs.\<close>

lemmas eval_defs =
  handleLocationChange_def storeCoordinates_def speedKmh_def handleAccelerometer_def
  handleDeviceMotion_def motionPass_def detectHighAcceleration_def detectHighTilt_def
  checkCombinedConditions_def active_defs triggerAlert_def composeMessage_def
  combinedData_def coordinatesString_def triggerAlert_settled_def initial_def thresholds
  magnitudeG_x_axis tilt_x_axis magnitudeG_z_axis tilt_z_axis Let_def

subsection \<open>The last alert time and the settling of deliveries\<close>

text \<open>The last alert time never decreases along a run.\<close>

lemma run_lastAlertTimestamp_mono:
  "lastAlertTimestamp s \<le> lastAlertTimestamp (snd (run ins s))"
  using gate_ok_run [of s ins] spaced_last_ge [of "lastAlertTimestamp s" "sentTimes (fst (run ins s))"]
  by (simp add: gate_ok_def)

text \<open>The sensor handlers emit alerts and suppression logs only.\<close>

lemma alerts_triggerAlert: "\<forall>e \<in> set (fst (triggerAlert now ty d s)). \<not> isSmsError e"
  by (simp add: triggerAlert_def Let_def)

lemma alerts_check: "\<forall>e \<in> set (fst (checkCombinedConditions now na s)). \<not> isSmsError e"
  using alerts_triggerAlert [of na Combined "combinedData s" s]
  by (simp add: checkCombinedConditions_def split_beta)

lemma alerts_location:
  "\<forall>e \<in> set (fst (handleLocationChange loc now nc na s)). \<not> isSmsError e"
  unfolding handleLocationChange_def Let_def split_beta
  by (auto split: option.splits dest: alerts_check [rule_format])

lemma alerts_motionPass: "\<forall>e \<in> set (fst (motionPass x y z r s)). \<not> isSmsError e"
  unfolding motionPass_def detectHighAcceleration_def detectHighTilt_def Let_def split_beta
  by (auto split: option.splits if_splits dest: alerts_check [rule_format])

lemma alerts_step:
  assumes "\<not> isSettled i"
  shows "filter (\<lambda>e. \<not> isSmsError e) (fst (step i s)) = fst (step i s)"
proof (cases i)
  case (LocationInput loc n c a)
  then show ?thesis using alerts_location by (simp add: filter_id_conv)
next
  case (AccelerometerInput v r)
  then show ?thesis
    using alerts_motionPass by (cases v) (simp add: handleAccelerometer_def filter_id_conv)
next
  case (DeviceMotionInput mo r)
  then show ?thesis
    using alerts_motionPass
    by (auto simp add: handleDeviceMotion_def filter_id_conv split: option.splits)
next
  case (FetchSettled out)
  then show ?thesis using assms by simp
qed

lemma settled_step:
  assumes "isSettled i"
  shows "snd (step i s) = s" and "filter (\<lambda>e. \<not> isSmsError e) (fst (step i s)) = []"
  using assms
  by (cases i; simp add: triggerAlert_settled_def split: fetch_outcome.splits)+

lemma run_without_settled:
  "snd (run ins s) = snd (run (filter (\<lambda>i. \<not> isSettled i) ins) s)
   \<and> filter (\<lambda>e. \<not> isSmsError e) (fst (run ins s))
       = fst (run (filter (\<lambda>i. \<not> isSettled i) ins) s)"
proof (induction ins arbitrary: s)
  case Nil
  then show ?case by simp
next
  case (Cons i ins)
  show ?case
  proof (cases "isSettled i")
    case True
    then show ?thesis
      using Cons.IH [of s] by (simp add: split_beta settled_step)
  next
    case False
    then show ?thesis
      using Cons.IH [of "snd (step i s)"] by (simp add: split_beta alerts_step)
  qed
qed

subsection \<open>What the correlation check leaves alone\<close>

text \<open>
  The correlation check never writes the arming time, the previous speed and location
  time, the coordinates or the toggle.
\<close>

lemma triggerAlert_state:
  "snd (triggerAlert now ty d s) =
     s\<lparr>lastAlertTimestamp :=
          (if alertsEnabled s \<and> now - lastAlertTimestamp s \<ge> ALERT_COOLDOWN_MS
           then now else lastAlertTimestamp s)\<rparr>"
  by (simp add: triggerAlert_def Let_def)

lemma checkCombinedConditions_frame:
  "accelPeakTimestamp (snd (checkCombinedConditions now na s)) = accelPeakTimestamp s
   \<and> lastSpeed (snd (checkCombinedConditions now na s)) = lastSpeed s
   \<and> lastLocationTimestamp (snd (checkCombinedConditions now na s)) = lastLocationTimestamp s
   \<and> lastKnownCoordinates (snd (checkCombinedConditions now na s)) = lastKnownCoordinates s
   \<and> alertsEnabled (snd (checkCombinedConditions now na s)) = alertsEnabled s"
  by (simp add: checkCombinedConditions_def split_beta triggerAlert_state)

subsection \<open>The arming time along runs\<close>

lemma armingTime_snoc:
  "armingTime (tr @ [(t, m)]) =
     (if m \<ge> ACCEL_MAGNITUDE_THRESHOLD_G
      then (case armingTime tr of None \<Rightarrow> Some t | Some p \<Rightarrow> Some p)
      else None)"
  by (simp add: armingTime_def split: list.splits)

lemma motionTrace_snoc:
  "motionTrace (ins @ [i]) =
     motionTrace ins @ (case motionSample i of None \<Rightarrow> [] | Some x \<Rightarrow> [x])"
  by (simp add: motionTrace_def map_filter_def split: option.splits)

lemma armingTime_run:
  assumes "armingTime tr = Some p"
  shows "\<exists>pre rn. tr = pre @ rn \<and> rn \<noteq> [] \<and> fst (hd rn) = p
           \<and> (\<forall>x \<in> set rn. snd x \<ge> ACCEL_MAGNITUDE_THRESHOLD_G)
           \<and> (pre = [] \<or> snd (last pre) < ACCEL_MAGNITUDE_THRESHOLD_G)"
proof -
  let ?P = "\<lambda>(t :: int, m :: real). m \<ge> ACCEL_MAGNITUDE_THRESHOLD_G"
  let ?rn = "rev (takeWhile ?P (rev tr))"
  let ?pre = "rev (dropWhile ?P (rev tr))"
  have ne: "takeWhile ?P (rev tr) \<noteq> []" and p: "fst (last (takeWhile ?P (rev tr))) = p"
    using assms by (auto simp add: armingTime_def split: list.splits)
  have "rev tr = takeWhile ?P (rev tr) @ dropWhile ?P (rev tr)" by simp
  then have "rev (rev tr) = ?pre @ ?rn" by (metis rev_append)
  then have split: "tr = ?pre @ ?rn" by simp
  have hd: "fst (hd ?rn) = p" using ne p by (simp add: hd_rev)
  have all: "\<forall>x \<in> set ?rn. snd x \<ge> ACCEL_MAGNITUDE_THRESHOLD_G"
    by (auto dest: set_takeWhileD)
  have pre: "?pre = [] \<or> snd (last ?pre) < ACCEL_MAGNITUDE_THRESHOLD_G"
  proof (cases "dropWhile ?P (rev tr) = []")
    case True
    then show ?thesis by simp
  next
    case False
    then have "\<not> ?P (hd (dropWhile ?P (rev tr)))" by (rule hd_dropWhile)
    then show ?thesis using False by (simp add: last_rev split_beta)
  qed
  from split ne hd all pre show ?thesis
    by (intro exI [of _ ?pre] exI [of _ ?rn]) simp
qed

text \<open>What each detector does to the arming time.\<close>

lemma detectHighAcceleration_peak:
  "accelPeakTimestamp (snd (detectHighAcceleration m now nc na s)) =
     (if m \<ge> ACCEL_MAGNITUDE_THRESHOLD_G
      then (case accelPeakTimestamp s of None \<Rightarrow> Some now | Some p \<Rightarrow> Some p)
      else None)"
  using checkCombinedConditions_frame
  by (simp add: detectHighAcceleration_def Let_def split: option.splits)

lemma detectHighTilt_peak:
  "accelPeakTimestamp (snd (detectHighTilt t now nc na s)) = accelPeakTimestamp s"
  using checkCombinedConditions_frame
  by (simp add: detectHighTilt_def)

lemma handleLocationChange_peak:
  "accelPeakTimestamp (snd (handleLocationChange loc now nc na s)) = accelPeakTimestamp s"
  using checkCombinedConditions_frame
  by (simp add: handleLocationChange_def storeCoordinates_def Let_def split_beta
      split: option.splits)

lemma step_peak:
  "accelPeakTimestamp (snd (step i s)) =
     (case motionSample i of
        None \<Rightarrow> accelPeakTimestamp s
      | Some (t, m) \<Rightarrow>
          if m \<ge> ACCEL_MAGNITUDE_THRESHOLD_G
          then (case accelPeakTimestamp s of None \<Rightarrow> Some t | Some p \<Rightarrow> Some p)
          else None)"
proof (cases i)
  case (LocationInput loc n c a)
  then show ?thesis by (simp add: handleLocationChange_peak)
next
  case (AccelerometerInput v r)
  then show ?thesis
    by (cases v)
      (simp add: handleAccelerometer_def motionPass_def split_beta detectHighTilt_peak
        detectHighAcceleration_peak split: option.splits)
next
  case (DeviceMotionInput mo r)
  then show ?thesis
    by (simp add: handleDeviceMotion_def motionPass_def split_beta detectHighTilt_peak
        detectHighAcceleration_peak split: option.splits)
next
  case (FetchSettled out)
  then show ?thesis by (simp add: triggerAlert_settled_def split: fetch_outcome.splits)
qed

lemma run_peak: "accelPeakTimestamp (snd (run ins initial)) = armingTime (motionTrace ins)"
proof (induction ins rule: rev_induct)
  case Nil
  then show ?case by (simp add: initial_def motionTrace_def armingTime_def map_filter_def)
next
  case (snoc i ins)
  have "accelPeakTimestamp (snd (run (ins @ [i]) initial))
      = accelPeakTimestamp (snd (step i (snd (run ins initial))))"
    by (simp add: run_append split_beta)
  then show ?case
    using snoc.IH
    by (cases "motionSample i")
      (auto simp add: step_peak motionTrace_snoc armingTime_snoc)
qed

subsection \<open>The samples' own timestamps\<close>

lemma handleLocationChange_timestamp:
  "handleLocationChange (loc\<lparr>loc_timestamp := ts\<rparr>) now nc na s
     = handleLocationChange loc now nc na s"
proof -
  have a: "speedKmh (loc\<lparr>loc_timestamp := ts\<rparr>) = speedKmh loc"
    by (simp add: speedKmh_def)
  have b: "storeCoordinates (loc\<lparr>loc_timestamp := ts\<rparr>) s = storeCoordinates loc s"
    by (simp add: storeCoordinates_def)
  show ?thesis
    unfolding handleLocationChange_def by (simp only: a b)
qed

subsection \<open>Timestamps of the detections along runs\<close>

lemma stampsUpTo_mono: "stampsUpTo T s \<Longrightarrow> T \<le> T' \<Longrightarrow> stampsUpTo T' s"
  by (auto simp add: stampsUpTo_def split: option.splits)

lemma stampsUpTo_check:
  "stampsUpTo T s \<Longrightarrow> stampsUpTo T (snd (checkCombinedConditions now na s))"
  by (simp add: checkCombinedConditions_def split_beta stampsUpTo_def triggerAlert_state)

lemma stampsUpTo_location:
  assumes "stampsUpTo T s" "T \<le> now"
  shows "stampsUpTo now (snd (handleLocationChange loc now nc na s))"
proof -
  let ?s1 = "storeCoordinates loc s"
  have s1: "stampsUpTo now ?s1"
    using stampsUpTo_mono [OF assms] by (simp add: storeCoordinates_def stampsUpTo_def)
  have set: "stampsUpTo now (?s1\<lparr>speedDropDetected := Some \<lparr>sd_timestamp = now, sd_value = v\<rparr>\<rparr>)"
    for v
    using s1 by (simp add: stampsUpTo_def)
  have clr: "stampsUpTo now (?s1\<lparr>speedDropDetected := None\<rparr>)"
    using s1 by (simp add: stampsUpTo_def)
  have fin: "stampsUpTo now (x\<lparr>lastSpeed := a, lastLocationTimestamp := b\<rparr>)"
    if "stampsUpTo now x" for x a b
    using that by (simp add: stampsUpTo_def)
  show ?thesis
    unfolding handleLocationChange_def Let_def split_beta
    by (auto split: option.splits intro!: fin stampsUpTo_check set clr s1)
qed

lemma stampsUpTo_accel:
  assumes "stampsUpTo T s" "T \<le> now"
  shows "stampsUpTo now (snd (detectHighAcceleration m now nc na s))"
proof -
  have s0: "stampsUpTo now s" by (rule stampsUpTo_mono [OF assms])
  have set: "stampsUpTo now
      (s\<lparr>highAccelerationDetected := Some \<lparr>ha_timestamp = now, ha_magnitude = m, ha_duration = d\<rparr>\<rparr>)"
    for d
    using s0 by (simp add: stampsUpTo_def)
  have arm: "stampsUpTo now (s\<lparr>accelPeakTimestamp := p\<rparr>)" for p
    using s0 by (simp add: stampsUpTo_def)
  have clr: "stampsUpTo now (s\<lparr>accelPeakTimestamp := None, highAccelerationDetected := None\<rparr>)"
    using s0 by (simp add: stampsUpTo_def)
  show ?thesis
    unfolding detectHighAcceleration_def Let_def
    by (auto split: option.splits intro!: stampsUpTo_check set arm clr s0)
qed

lemma stampsUpTo_tilt:
  assumes "stampsUpTo now s"
  shows "stampsUpTo now (snd (detectHighTilt t now nc na s))"
proof -
  have set: "stampsUpTo now (s\<lparr>highTiltDetected := Some \<lparr>ht_timestamp = now, ht_tilt = t\<rparr>\<rparr>)"
    using assms by (simp add: stampsUpTo_def)
  have clr: "stampsUpTo now (s\<lparr>highTiltDetected := None\<rparr>)"
    using assms by (simp add: stampsUpTo_def)
  show ?thesis
    unfolding detectHighTilt_def
    by (auto split: option.splits intro!: stampsUpTo_check set clr assms)
qed

lemma stampsUpTo_motionPass:
  assumes "stampsUpTo T s" "T \<le> r_now r"
  shows "stampsUpTo (r_now r) (snd (motionPass x y z r s))"
  unfolding motionPass_def Let_def split_beta
  by (simp add: stampsUpTo_tilt stampsUpTo_accel [OF assms])

lemma stampsUpTo_step:
  assumes "stampsUpTo T s" "case handlerNow i of None \<Rightarrow> True | Some n \<Rightarrow> T \<le> n"
  shows "stampsUpTo (case handlerNow i of None \<Rightarrow> T | Some n \<Rightarrow> n) (snd (step i s))"
proof (cases i)
  case (LocationInput loc n c a)
  then show ?thesis using assms by (simp add: stampsUpTo_location)
next
  case (AccelerometerInput v r)
  then show ?thesis
    using assms by (cases v) (simp add: handleAccelerometer_def stampsUpTo_motionPass)
next
  case (DeviceMotionInput mo r)
  then show ?thesis
    using assms stampsUpTo_mono [of T s "r_now r"]
    by (auto simp add: handleDeviceMotion_def stampsUpTo_motionPass split: option.splits)
next
  case (FetchSettled out)
  then show ?thesis
    using assms by (simp add: triggerAlert_settled_def split: fetch_outcome.splits)
qed

lemma stampsUpTo_run:
  assumes "stampsUpTo T s" "sorted (T # List.map_filter handlerNow ins)"
  shows "stampsUpTo (last (T # List.map_filter handlerNow ins)) (snd (run ins s))"
  using assms
proof (induction ins arbitrary: T s)
  case Nil
  then show ?case by (simp add: map_filter_simps)
next
  case (Cons i ins)
  show ?case
  proof (cases "handlerNow i")
    case None
    then have "stampsUpTo T (snd (step i s))"
      using stampsUpTo_step [of T s i] Cons.prems by simp
    from Cons.IH [OF this] Cons.prems(2) None show ?thesis
      by (simp add: map_filter_simps split_beta)
  next
    case (Some n)
    then have "stampsUpTo n (snd (step i s))"
      using stampsUpTo_step [of T s i] Cons.prems by (simp add: map_filter_simps)
    moreover have "sorted (n # List.map_filter handlerNow ins)"
      using Cons.prems(2) Some by (simp add: map_filter_simps)
    ultimately have "stampsUpTo (last (n # List.map_filter handlerNow ins))
        (snd (run ins (snd (step i s))))"
      by (rule Cons.IH)
    then show ?thesis
      using Some by (simp add: map_filter_simps split_beta)
  qed
qed

lemma stampsUpTo_initial: "stampsUpTo T initial"
  by (simp add: stampsUpTo_def initial_def)

lemma reachable_stamps:
  assumes "sorted (List.map_filter handlerNow ins @ [now])"
  shows "stampsUpTo now (snd (run ins initial))"
proof (cases "List.map_filter handlerNow ins")
  case Nil
  then have "stampsUpTo (last (now # List.map_filter handlerNow ins)) (snd (run ins initial))"
    by (intro stampsUpTo_run stampsUpTo_initial) simp
  then show ?thesis using Nil by simp
next
  case (Cons t ts)
  then have "sorted (t # List.map_filter handlerNow ins)"
    using assms by (simp add: sorted_append)
  then have "stampsUpTo (last (t # List.map_filter handlerNow ins)) (snd (run ins initial))"
    by (intro stampsUpTo_run stampsUpTo_initial)
  moreover have "last (t # List.map_filter handlerNow ins) \<le> now"
    using assms Cons by (simp add: sorted_append)
  ultimately show ?thesis by (rule stampsUpTo_mono)
qed

subsection \<open>The cooldown of the dispatcher\<close>

text \<open>
  The dispatcher does nothing but log when the reading \<open>now\<close> is less than 10000 ms
  after \<open>lastAlertTimestamp\<close>: the state is unchanged and no alert is sent. With the
  cooldown over and its \<open>alertsEnabled\<close> true it sets \<open>lastAlertTimestamp\<close> to
  \<open>now\<close> and sends. Consequently, after a dispatch at \<open>t1\<close> and any further inputs,
  a call at a reading \<open>t2\<close> with \<open>t2 - t1 < 10000\<close> (3000, say) is suppressed, also
  when it is the correlation check that fired; and in every run of the engine the
  dispatch times are at least 10000 ms apart from each other and from the last alert
  before the run.
\<close>

lemma cooldown_spacing:
  "(now - lastAlertTimestamp s < 10000
      \<longrightarrow> triggerAlert now ty d s = ([AlertSuppressed ty d], s))
   \<and> (alertsEnabled s \<and> now - lastAlertTimestamp s \<ge> 10000
      \<longrightarrow> triggerAlert now ty d s =
            ([AlertSent now (composeMessage ty d s) d], s\<lparr>lastAlertTimestamp := now\<rparr>))
   \<and> (lastAlertTimestamp s = t1 \<and> t2 - t1 < 10000
      \<longrightarrow> triggerAlert t2 ty d (snd (run ins s)) = ([AlertSuppressed ty d], snd (run ins s))
          \<and> sentTimes (fst (checkCombinedConditions now t2 (snd (run ins s)))) = [])
   \<and> spaced (lastAlertTimestamp s) (sentTimes (fst (run ins s)))
   \<and> (\<forall>i j. i < j \<and> j < length (sentTimes (fst (run ins s)))
         \<longrightarrow> sentTimes (fst (run ins s)) ! j - sentTimes (fst (run ins s)) ! i \<ge> 10000)
   \<and> ALERT_COOLDOWN_MS = 10000"
proof -
  have blocked: "now - lastAlertTimestamp s < 10000
      \<longrightarrow> triggerAlert now ty d s = ([AlertSuppressed ty d], s)"
    by (simp add: triggerAlert_blocked thresholds)
  have passed: "alertsEnabled s \<and> now - lastAlertTimestamp s \<ge> 10000
      \<longrightarrow> triggerAlert now ty d s =
            ([AlertSent now (composeMessage ty d s) d], s\<lparr>lastAlertTimestamp := now\<rparr>)"
    by (simp add: triggerAlert_passed thresholds)
  have later: "triggerAlert t2 ty d (snd (run ins s)) = ([AlertSuppressed ty d], snd (run ins s))
      \<and> sentTimes (fst (checkCombinedConditions now t2 (snd (run ins s)))) = []"
    if "lastAlertTimestamp s = t1" "t2 - t1 < 10000"
  proof -
    have "t2 - lastAlertTimestamp (snd (run ins s)) < ALERT_COOLDOWN_MS"
      using that run_lastAlertTimestamp_mono [of s ins] by (simp add: thresholds)
    then have "\<And>ty d. triggerAlert t2 ty d (snd (run ins s)) = ([AlertSuppressed ty d], snd (run ins s))"
      by (simp add: triggerAlert_blocked)
    then show ?thesis
      by (simp add: checkCombinedConditions_def)
  qed
  have sp: "spaced (lastAlertTimestamp s) (sentTimes (fst (run ins s)))"
    using gate_ok_run [of s ins] by (simp add: gate_ok_def)
  have pw: "\<forall>i j. i < j \<and> j < length (sentTimes (fst (run ins s)))
         \<longrightarrow> sentTimes (fst (run ins s)) ! j - sentTimes (fst (run ins s)) ! i \<ge> 10000"
    using spaced_pairwise [OF sp] by (simp add: thresholds)
  show ?thesis
    using blocked passed later sp pw by (simp add: thresholds)
qed

text \<open>
  Two episodes 3000 ms apart, from the fresh engine: a drop from 72 to 18 km/h while
  4 g and 90 degrees of tilt are held. The first episode is dispatched at 100500, the
  second makes the correlation check fire at 103500 and is suppressed.
\<close>

lemma cooldown_two_episodes:
  "fst (run
     [LocationInput \<lparr>coords_latitude = 12, coords_longitude = 77, coords_speed = Some 20,
                     loc_timestamp = 100000\<rparr> 100000 100000 100000,
      AccelerometerInput (4, 0, 0) \<lparr>r_now = 100100, r_check1 = 100100, r_alert1 = 100100,
                                    r_check2 = 100100, r_alert2 = 100100\<rparr>,
      AccelerometerInput (4, 0, 0) \<lparr>r_now = 100200, r_check1 = 100200, r_alert1 = 100200,
                                    r_check2 = 100200, r_alert2 = 100200\<rparr>,
      LocationInput \<lparr>coords_latitude = 12, coords_longitude = 77, coords_speed = Some 5,
                     loc_timestamp = 100500\<rparr> 100500 100500 100500,
      LocationInput \<lparr>coords_latitude = 12, coords_longitude = 77, coords_speed = Some 20,
                     loc_timestamp = 103000\<rparr> 103000 103000 103000,
      AccelerometerInput (4, 0, 0) \<lparr>r_now = 103100, r_check1 = 103100, r_alert1 = 103100,
                                    r_check2 = 103100, r_alert2 = 103100\<rparr>,
      LocationInput \<lparr>coords_latitude = 12, coords_longitude = 77, coords_speed = Some 5,
                     loc_timestamp = 103500\<rparr> 103500 103500 103500]
     initial)
   = [AlertSent 100500 (CombinedMessage (Some 54) (Some 4) (Some 90) (Some (12, 77)))
        (combinedData (initial\<lparr>lastKnownCoordinates := Some \<lparr>latitude = 12, longitude = 77\<rparr>\<rparr>)),
      AlertSuppressed Combined
        (combinedData (initial\<lparr>lastKnownCoordinates := Some \<lparr>latitude = 12, longitude = 77\<rparr>\<rparr>))]
   \<and> triggerAlert 100500 Combined (combinedData initial) initial
       = ([AlertSent 100500 (CombinedMessage None None None None) (combinedData initial)],
          initial\<lparr>lastAlertTimestamp := 100500\<rparr>)
   \<and> triggerAlert 103500 Combined (combinedData initial) (initial\<lparr>lastAlertTimestamp := 100500\<rparr>)
       = ([AlertSuppressed Combined (combinedData initial)], initial\<lparr>lastAlertTimestamp := 100500\<rparr>)"
  (is "fst (run ?ins initial) = ?evs \<and> ?first \<and> ?second")
proof -
  have r: "run ?ins initial =
      (?evs, initial\<lparr>lastSpeed := Some 18, lastLocationTimestamp := Some 103500,
                     accelPeakTimestamp := Some 100100, lastAlertTimestamp := 100500,
                     lastKnownCoordinates := Some \<lparr>latitude = 12, longitude = 77\<rparr>\<rparr>)"
    by (simp add: eval_defs)
  have "spaced (lastAlertTimestamp initial) (sentTimes (fst (run ?ins initial)))"
    using cooldown_spacing [of 0 initial Combined "combinedData initial" 0 0 ?ins]
    by blast
  then have "spaced 0 [100500]"
    by (simp only: r fst_conv) (simp add: initial_def combinedData_def)
  have ?first
    using cooldown_spacing [of 100500 initial Combined "combinedData initial" 0 0 "[]"]
    by (simp add: initial_def composeMessage_def combinedData_def coordinatesString_def)
  moreover have ?second
    using cooldown_spacing [of 103500 "initial\<lparr>lastAlertTimestamp := 100500\<rparr>" Combined
      "combinedData initial" 100500 103500 "[]"]
    by (simp add: initial_def)
  ultimately show ?thesis
    by (simp only: r fst_conv simp_thms)
qed

subsection \<open>The settling of a delivery request\<close>

text \<open>
  The continuation that runs when the delivery request has settled leaves the engine
  state exactly as it is at that moment; a rejected request is shown in a dialog. After
  a dispatch at \<open>now\<close>, \<open>lastAlertTimestamp\<close> is still \<open>now\<close> once a rejection
  has been reported. Over whole runs, the settling of delivery requests has no influence
  on the final engine state nor on the alerts sent or suppressed.
\<close>

lemma settling_keeps_state:
  "snd (triggerAlert_settled out s') = s'
   \<and> (\<exists>text. triggerAlert_settled (Rejected m) s' = ([SmsErrorShown text], s')
         \<and> text \<noteq> [] \<and> (\<forall>t. m = Some t \<and> t \<noteq> [] \<longrightarrow> text = t))
   \<and> (alertsEnabled s \<and> now - lastAlertTimestamp s \<ge> ALERT_COOLDOWN_MS
        \<longrightarrow> lastAlertTimestamp (snd (triggerAlert now ty d s)) = now
          \<and> snd (triggerAlert_settled (Rejected m) (snd (triggerAlert now ty d s)))
              = snd (triggerAlert now ty d s))
   \<and> snd (run ins s) = snd (run (filter (\<lambda>i. \<not> isSettled i) ins) s)
   \<and> filter (\<lambda>e. \<not> isSmsError e) (fst (run ins s))
       = fst (run (filter (\<lambda>i. \<not> isSettled i) ins) s)"
proof -
  have a: "snd (triggerAlert_settled out s') = s'" for out s'
    by (simp add: triggerAlert_settled_def split: fetch_outcome.splits)
  have b: "\<exists>text. triggerAlert_settled (Rejected m) s' = ([SmsErrorShown text], s')
         \<and> text \<noteq> [] \<and> (\<forall>t. m = Some t \<and> t \<noteq> [] \<longrightarrow> text = t)"
    by (cases m) (simp_all add: triggerAlert_settled_def)
  have c: "alertsEnabled s \<and> now - lastAlertTimestamp s \<ge> ALERT_COOLDOWN_MS
        \<longrightarrow> lastAlertTimestamp (snd (triggerAlert now ty d s)) = now"
    by (simp add: triggerAlert_passed)
  show ?thesis
    using a b c run_without_settled [of ins s] by simp
qed

subsection \<open>The closure of the listeners\<close>

text \<open>No handler writes the \<open>alertsEnabled\<close> that the listeners read.\<close>

lemma handleLocationChange_alertsEnabled:
  "alertsEnabled (snd (handleLocationChange loc now nc na s)) = alertsEnabled s"
  using checkCombinedConditions_frame
  by (simp add: handleLocationChange_def storeCoordinates_def Let_def split_beta
      split: option.splits)

lemma motionPass_alertsEnabled:
  "alertsEnabled (snd (motionPass x y z r s)) = alertsEnabled s"
  using checkCombinedConditions_frame
  by (simp add: motionPass_def detectHighAcceleration_def detectHighTilt_def Let_def
      split_beta split: option.splits)

lemma step_alertsEnabled: "alertsEnabled (snd (step i s)) = alertsEnabled s"
proof (cases i)
  case (LocationInput loc n c a)
  then show ?thesis by (simp add: handleLocationChange_alertsEnabled)
next
  case (AccelerometerInput v r)
  then show ?thesis
    by (cases v) (simp add: handleAccelerometer_def motionPass_alertsEnabled)
next
  case (DeviceMotionInput mo r)
  then show ?thesis
    by (simp add: handleDeviceMotion_def motionPass_alertsEnabled split: option.splits)
next
  case (FetchSettled out)
  then show ?thesis by (simp add: triggerAlert_settled_def split: fetch_outcome.splits)
qed

lemma hostStep_alertsEnabled:
  "alertsEnabled (listeners (snd (hostStep h a))) = alertsEnabled (listeners a)"
  by (cases h) (simp_all add: split_beta step_alertsEnabled)

lemma hostRun_alertsEnabled:
  "alertsEnabled (listeners (snd (hostRun hs a))) = alertsEnabled (listeners a)"
  by (induction hs arbitrary: a) (simp_all add: split_beta hostStep_alertsEnabled)

section \<open>The claims\<close>

text \<open>
  C1. In every engine state in which the three detections are present and each is
  younger than 2000 ms at the reading \<open>now\<close> of the correlation check, the check calls
  the dispatcher exactly once, with the type \<open>Combined\<close> and on the state that still
  holds the three detections, so exactly one event is emitted. When the dispatcher's
  gate is open the event is the alert whose message embeds the value of the speed drop,
  the magnitude of the acceleration and the tilt of the three detections; when the gate
  is closed it is the log entry of the suppressed combined alert. In both cases the
  three detections are absent afterwards, none of the three activity tests holds at any
  later reading, and a second check on the state left behind emits nothing.
\<close>

theorem checkCombinedConditions_fires_once:
  assumes "speedDropDetected s = Some sd" "now - sd_timestamp sd < COMBINED_ALERT_WINDOW_MS"
    and "highAccelerationDetected s = Some ha" "now - ha_timestamp ha < COMBINED_ALERT_WINDOW_MS"
    and "highTiltDetected s = Some ht" "now - ht_timestamp ht < COMBINED_ALERT_WINDOW_MS"
  shows "\<exists>ev s'.
     checkCombinedConditions now nowAlert s = ([ev], s')
     \<and> [ev] = fst (triggerAlert nowAlert Combined (combinedData s) s)
     \<and> ev = (if alertsEnabled s \<and> nowAlert - lastAlertTimestamp s \<ge> ALERT_COOLDOWN_MS
             then AlertSent nowAlert
                    (CombinedMessage (Some (sd_value sd)) (Some (ha_magnitude ha))
                       (Some (ht_tilt ht)) (coordinatesString (combinedData s)))
                    (combinedData s)
             else AlertSuppressed Combined (combinedData s))
     \<and> speedDropDetected s' = None \<and> highAccelerationDetected s' = None
     \<and> highTiltDetected s' = None
     \<and> (\<forall>t. \<not> isSpeedDropActive t s' \<and> \<not> isHighAccelerationActive t s'
              \<and> \<not> isHighTiltActive t s')
     \<and> (\<forall>t a. checkCombinedConditions t a s' = ([], s'))"
proof -
  have act: "isSpeedDropActive now s" "isHighAccelerationActive now s" "isHighTiltActive now s"
    using assms by (simp_all add: active_defs)
  have idle: "checkCombinedConditions t a s' = ([], s')" if "speedDropDetected s' = None"
    for t a s'
    using that by (simp add: checkCombinedConditions_def isSpeedDropActive_def)
  show ?thesis
  proof (cases "alertsEnabled s \<and> nowAlert - lastAlertTimestamp s \<ge> ALERT_COOLDOWN_MS")
    case True
    then have "triggerAlert nowAlert Combined (combinedData s) s =
        ([AlertSent nowAlert (composeMessage Combined (combinedData s) s) (combinedData s)],
         s\<lparr>lastAlertTimestamp := nowAlert\<rparr>)"
      by (simp add: triggerAlert_passed)
    with True assms show ?thesis
      by (simp add: checkCombinedConditions_fire [OF act] composeMessage_def active_defs idle)
  next
    case False
    then have "triggerAlert nowAlert Combined (combinedData s) s =
        ([AlertSuppressed Combined (combinedData s)], s)"
      by (intro triggerAlert_blocked) auto
    with False show ?thesis
      by (simp add: checkCombinedConditions_fire [OF act] active_defs idle)
  qed
qed

text \<open>
  A speed drop of 45 km/h, 3.5 g and 35 degrees of tilt, all stamped within the last
  second, the last alert long ago: one alert with the three values; the detections are
  gone.
\<close>

theorem checkCombinedConditions_fires_once_witness:
  "checkCombinedConditions 50000 50001
     (initial\<lparr>speedDropDetected := Some \<lparr>sd_timestamp = 49500, sd_value = 45\<rparr>,
              highAccelerationDetected :=
                Some \<lparr>ha_timestamp = 49900, ha_magnitude = 7 / 2, ha_duration = 100\<rparr>,
              highTiltDetected := Some \<lparr>ht_timestamp = 50000, ht_tilt = 35\<rparr>\<rparr>)
   = ([AlertSent 50001 (CombinedMessage (Some 45) (Some (7 / 2)) (Some 35) None)
         (combinedData initial)],
      initial\<lparr>lastAlertTimestamp := 50001\<rparr>)"
  using checkCombinedConditions_fires_once
    [of "initial\<lparr>speedDropDetected := Some \<lparr>sd_timestamp = 49500, sd_value = 45\<rparr>,
              highAccelerationDetected :=
                Some \<lparr>ha_timestamp = 49900, ha_magnitude = 7 / 2, ha_duration = 100\<rparr>,
              highTiltDetected := Some \<lparr>ht_timestamp = 50000, ht_tilt = 35\<rparr>\<rparr>"
        "\<lparr>sd_timestamp = 49500, sd_value = 45\<rparr>" 50000
        "\<lparr>ha_timestamp = 49900, ha_magnitude = 7 / 2, ha_duration = 100\<rparr>"
        "\<lparr>ht_timestamp = 50000, ht_tilt = 35\<rparr>" 50001]
  by (simp add: initial_def thresholds combinedData_def coordinatesString_def
      checkCombinedConditions_def active_defs triggerAlert_def composeMessage_def)

text \<open>
  C2. With a previous sample of speed \<open>prevSpeed\<close> taken at the reading \<open>prevT\<close>, a
  location sample processed at the reading \<open>t\<close> writes the speed-drop detection, with
  the drop \<open>prevSpeed - speed\<close> as value and \<open>t\<close> as timestamp, and hands it to the
  correlation check, if \<open>t - prevT \<le> 1000\<close>, the drop is at least 40 km/h and
  \<open>prevSpeed > 5\<close>; the detection is then active at \<open>t\<close>, and it is what the handler
  leaves behind unless the correlation check consumes it at once. If one of the three
  conditions fails, nothing is emitted and the detection is only carried over, or
  cleared when it is older than 2000 ms. From the fresh engine, 60 km/h at 0 and
  15 km/h at 500 leave an active detection of value 45; the same speeds 1500 ms apart
  leave none.
\<close>

theorem speedDrop_detection:
  assumes "lastSpeed s = Some prevSpeed" "lastLocationTimestamp s = Some prevT"
  shows "(t - prevT \<le> 1000 \<and> prevSpeed - speedKmh loc \<ge> 40 \<and> prevSpeed > 5
       \<longrightarrow> handleLocationChange loc t c a s
            = (fst (checkCombinedConditions c a
                     ((storeCoordinates loc s)\<lparr>speedDropDetected :=
                        Some \<lparr>sd_timestamp = t, sd_value = prevSpeed - speedKmh loc\<rparr>\<rparr>)),
               (snd (checkCombinedConditions c a
                     ((storeCoordinates loc s)\<lparr>speedDropDetected :=
                        Some \<lparr>sd_timestamp = t, sd_value = prevSpeed - speedKmh loc\<rparr>\<rparr>)))
                 \<lparr>lastSpeed := Some (speedKmh loc), lastLocationTimestamp := Some t\<rparr>)
          \<and> isSpeedDropActive t
               ((storeCoordinates loc s)\<lparr>speedDropDetected :=
                  Some \<lparr>sd_timestamp = t, sd_value = prevSpeed - speedKmh loc\<rparr>\<rparr>)
          \<and> (\<not> (isHighAccelerationActive c s \<and> isHighTiltActive c s \<and> c - t < 2000)
              \<longrightarrow> handleLocationChange loc t c a s
                   = ([], (storeCoordinates loc s)
                            \<lparr>speedDropDetected :=
                               Some \<lparr>sd_timestamp = t, sd_value = prevSpeed - speedKmh loc\<rparr>,
                             lastSpeed := Some (speedKmh loc),
                             lastLocationTimestamp := Some t\<rparr>)))
     \<and> (\<not> (t - prevT \<le> 1000 \<and> prevSpeed - speedKmh loc \<ge> 40 \<and> prevSpeed > 5)
       \<longrightarrow> handleLocationChange loc t c a s
            = ([], (storeCoordinates loc s)
                     \<lparr>speedDropDetected :=
                        (case speedDropDetected s of
                           None \<Rightarrow> None
                         | Some d \<Rightarrow> if t - sd_timestamp d > 2000 then None else Some d),
                      lastSpeed := Some (speedKmh loc), lastLocationTimestamp := Some t\<rparr>))
     \<and> speedDropDetected (snd (run
           [LocationInput \<lparr>coords_latitude = 12, coords_longitude = 77,
                           coords_speed = Some (50 / 3), loc_timestamp = 0\<rparr> 0 0 0,
            LocationInput \<lparr>coords_latitude = 12, coords_longitude = 77,
                           coords_speed = Some (25 / 6), loc_timestamp = 500\<rparr> 500 500 500]
           initial))
         = Some \<lparr>sd_timestamp = 500, sd_value = 45\<rparr>
     \<and> isSpeedDropActive 500 (snd (run
           [LocationInput \<lparr>coords_latitude = 12, coords_longitude = 77,
                           coords_speed = Some (50 / 3), loc_timestamp = 0\<rparr> 0 0 0,
            LocationInput \<lparr>coords_latitude = 12, coords_longitude = 77,
                           coords_speed = Some (25 / 6), loc_timestamp = 500\<rparr> 500 500 500]
           initial))
     \<and> speedDropDetected (snd (run
           [LocationInput \<lparr>coords_latitude = 12, coords_longitude = 77,
                           coords_speed = Some (50 / 3), loc_timestamp = 0\<rparr> 0 0 0,
            LocationInput \<lparr>coords_latitude = 12, coords_longitude = 77,
                           coords_speed = Some (25 / 6), loc_timestamp = 1500\<rparr> 1500 1500 1500]
           initial))
         = None"
  (is "?created \<and> ?kept \<and> ?ex1 \<and> ?ex2 \<and> ?ex3")
proof -
  let ?S1 = "(storeCoordinates loc s)\<lparr>speedDropDetected :=
                Some \<lparr>sd_timestamp = t, sd_value = prevSpeed - speedKmh loc\<rparr>\<rparr>"
  have prev: "lastSpeed (storeCoordinates loc s) = Some prevSpeed"
    "lastLocationTimestamp (storeCoordinates loc s) = Some prevT"
    "speedDropDetected (storeCoordinates loc s) = speedDropDetected s"
    "highAccelerationDetected (storeCoordinates loc s) = highAccelerationDetected s"
    "highTiltDetected (storeCoordinates loc s) = highTiltDetected s"
    using assms by (simp_all add: storeCoordinates_def)
  have gap: "real_of_int (t - prevT) / 1000 \<le> 1 \<longleftrightarrow> t - prevT \<le> 1000"
    by simp linarith
  have created: ?created
  proof (intro impI conjI)
    assume cond: "t - prevT \<le> 1000 \<and> prevSpeed - speedKmh loc \<ge> 40 \<and> prevSpeed > 5"
    show eq: "handleLocationChange loc t c a s
        = (fst (checkCombinedConditions c a ?S1),
           (snd (checkCombinedConditions c a ?S1))
             \<lparr>lastSpeed := Some (speedKmh loc), lastLocationTimestamp := Some t\<rparr>)"
      using cond gap prev
      by (simp add: handleLocationChange_def Let_def split_beta thresholds)
    show "isSpeedDropActive t ?S1"
      by (simp add: isSpeedDropActive_def thresholds)
    assume "\<not> (isHighAccelerationActive c s \<and> isHighTiltActive c s \<and> c - t < 2000)"
    then have "\<not> (isSpeedDropActive c ?S1 \<and> isHighAccelerationActive c ?S1
        \<and> isHighTiltActive c ?S1)"
      using prev by (auto simp add: active_defs thresholds)
    then have "checkCombinedConditions c a ?S1 = ([], ?S1)"
      by (rule checkCombinedConditions_idle)
    then show "handleLocationChange loc t c a s
        = ([], (storeCoordinates loc s)
                 \<lparr>speedDropDetected :=
                    Some \<lparr>sd_timestamp = t, sd_value = prevSpeed - speedKmh loc\<rparr>,
                  lastSpeed := Some (speedKmh loc), lastLocationTimestamp := Some t\<rparr>)"
      by (simp add: eq)
  qed
  have kept: ?kept
    using gap prev
    by (auto simp add: handleLocationChange_def Let_def split_beta thresholds
        split: option.splits)
  have ex1: ?ex1 and ex2: ?ex2 and ex3: ?ex3
    by (simp_all add: eval_defs)
  show ?thesis
    using created kept ex1 ex2 ex3 by (intro conjI)
qed

text \<open>
  The second sample of the two sequences, on the state that the first sample leaves
  (60 km/h at 0): at 500 the detection of value 45 is written, at 1500 it is not.
\<close>

theorem speedDrop_detection_witness:
  "handleLocationChange
     \<lparr>coords_latitude = 12, coords_longitude = 77, coords_speed = Some (25 / 6),
      loc_timestamp = 500\<rparr> 500 500 500
     (initial\<lparr>lastSpeed := Some 60, lastLocationTimestamp := Some 0\<rparr>)
   = ([], initial\<lparr>lastSpeed := Some 15, lastLocationTimestamp := Some 500,
                  speedDropDetected := Some \<lparr>sd_timestamp = 500, sd_value = 45\<rparr>,
                  lastKnownCoordinates := Some \<lparr>latitude = 12, longitude = 77\<rparr>\<rparr>)
   \<and> handleLocationChange
     \<lparr>coords_latitude = 12, coords_longitude = 77, coords_speed = Some (25 / 6),
      loc_timestamp = 1500\<rparr> 1500 1500 1500
     (initial\<lparr>lastSpeed := Some 60, lastLocationTimestamp := Some 0\<rparr>)
   = ([], initial\<lparr>lastSpeed := Some 15, lastLocationTimestamp := Some 1500,
                  lastKnownCoordinates := Some \<lparr>latitude = 12, longitude = 77\<rparr>\<rparr>)"
  (is "handleLocationChange ?l1 _ _ _ ?S = _ \<and> handleLocationChange ?l2 _ _ _ _ = _")
proof -
  have prev: "lastSpeed ?S = Some 60" "lastLocationTimestamp ?S = Some 0"
    by simp_all
  have v: "speedKmh ?l1 = 15" "speedKmh ?l2 = 15"
    by (simp_all add: speedKmh_def)
  note a = speedDrop_detection [OF prev, of 500 ?l1 500 500, THEN conjunct1, rule_format,
      THEN conjunct2, THEN conjunct2, rule_format]
  note b = speedDrop_detection [OF prev, of 1500 ?l2 1500 1500, THEN conjunct2,
      THEN conjunct1, rule_format]
  have "handleLocationChange ?l1 500 500 500 ?S
      = ([], (storeCoordinates ?l1 ?S)
               \<lparr>speedDropDetected := Some \<lparr>sd_timestamp = 500, sd_value = 60 - speedKmh ?l1\<rparr>,
                lastSpeed := Some (speedKmh ?l1), lastLocationTimestamp := Some 500\<rparr>)"
    by (rule a) (simp_all add: v active_defs initial_def)
  moreover have "handleLocationChange ?l2 1500 1500 1500 ?S
      = ([], (storeCoordinates ?l2 ?S)
               \<lparr>speedDropDetected :=
                  (case speedDropDetected ?S of
                     None \<Rightarrow> None
                   | Some d \<Rightarrow> if 1500 - sd_timestamp d > 2000 then None else Some d),
                lastSpeed := Some (speedKmh ?l2), lastLocationTimestamp := Some 1500\<rparr>)"
    by (rule b) simp
  ultimately show ?thesis
    by (simp add: v storeCoordinates_def initial_def)
qed

text \<open>
  C3. The acceleration detector writes its detection at a sample of magnitude \<open>m\<close>
  and reading \<open>t\<close> only when \<open>m\<close> is at least 3 g, an arming time \<open>p\<close> is stored
  and \<open>t - p \<ge> 60\<close>; the detection then carries \<open>m\<close>, the duration \<open>t - p\<close> and
  the timestamp \<open>t\<close>. In every other case nothing is emitted and the detection is only
  carried over, or cleared when it has expired. A sample below 3 g clears the arming
  time, a sample of at least 3 g keeps it or, when there is none, sets it to its own
  reading. Over every run from the fresh engine the stored arming time is therefore the
  time of the first sample of the unbroken run of samples of at least 3 g that ends the
  motion samples processed so far: the 60 ms are counted over contiguous samples above
  the threshold.
\<close>

theorem highAcceleration_duration_gate:
  "(m \<ge> 3 \<and> accelPeakTimestamp s = Some p \<and> t - p \<ge> 60
      \<longrightarrow> detectHighAcceleration m t c a s
           = checkCombinedConditions c a
               (s\<lparr>highAccelerationDetected :=
                    Some \<lparr>ha_timestamp = t, ha_magnitude = m, ha_duration = t - p\<rparr>\<rparr>))
   \<and> (\<not> (m \<ge> 3 \<and> (\<exists>p. accelPeakTimestamp s = Some p \<and> t - p \<ge> 60))
      \<longrightarrow> fst (detectHighAcceleration m t c a s) = []
          \<and> highAccelerationDetected (snd (detectHighAcceleration m t c a s))
              = (case highAccelerationDetected s of
                   None \<Rightarrow> None
                 | Some d \<Rightarrow> if m < 3 \<and> t - ha_timestamp d > 2000 then None else Some d))
   \<and> (m < 3 \<longrightarrow> accelPeakTimestamp (snd (detectHighAcceleration m t c a s)) = None)
   \<and> (m \<ge> 3 \<longrightarrow> accelPeakTimestamp (snd (detectHighAcceleration m t c a s))
                   = Some (case accelPeakTimestamp s of None \<Rightarrow> t | Some p \<Rightarrow> p))
   \<and> accelPeakTimestamp (snd (run ins initial)) = armingTime (motionTrace ins)
   \<and> (accelPeakTimestamp (snd (run ins initial)) = Some q
      \<longrightarrow> (\<exists>pre rn. motionTrace ins = pre @ rn \<and> rn \<noteq> [] \<and> fst (hd rn) = q
             \<and> (\<forall>x \<in> set rn. snd x \<ge> 3) \<and> (pre = [] \<or> snd (last pre) < 3)))"
proof -
  have created: "m \<ge> 3 \<and> accelPeakTimestamp s = Some p \<and> t - p \<ge> 60
      \<longrightarrow> detectHighAcceleration m t c a s
           = checkCombinedConditions c a
               (s\<lparr>highAccelerationDetected :=
                    Some \<lparr>ha_timestamp = t, ha_magnitude = m, ha_duration = t - p\<rparr>\<rparr>)"
    by (simp add: detectHighAcceleration_def thresholds)
  have kept: "\<not> (m \<ge> 3 \<and> (\<exists>p. accelPeakTimestamp s = Some p \<and> t - p \<ge> 60))
      \<longrightarrow> fst (detectHighAcceleration m t c a s) = []
          \<and> highAccelerationDetected (snd (detectHighAcceleration m t c a s))
              = (case highAccelerationDetected s of
                   None \<Rightarrow> None
                 | Some d \<Rightarrow> if m < 3 \<and> t - ha_timestamp d > 2000 then None else Some d)"
    by (auto simp add: detectHighAcceleration_def thresholds Let_def split: option.splits)
  have peak: "(m < 3 \<longrightarrow> accelPeakTimestamp (snd (detectHighAcceleration m t c a s)) = None)
      \<and> (m \<ge> 3 \<longrightarrow> accelPeakTimestamp (snd (detectHighAcceleration m t c a s))
                   = Some (case accelPeakTimestamp s of None \<Rightarrow> t | Some p \<Rightarrow> p))"
    by (simp add: detectHighAcceleration_peak thresholds split: option.splits)
  have armed: "accelPeakTimestamp (snd (run ins initial)) = Some q
      \<longrightarrow> (\<exists>pre rn. motionTrace ins = pre @ rn \<and> rn \<noteq> [] \<and> fst (hd rn) = q
             \<and> (\<forall>x \<in> set rn. snd x \<ge> 3) \<and> (pre = [] \<or> snd (last pre) < 3))"
    using armingTime_run [of "motionTrace ins" q]
    by (simp add: run_peak thresholds)
  show ?thesis
    using created kept peak run_peak [of ins] armed by (intro conjI) simp_all
qed

text \<open>
  3.5 g held from 0 to 60: armed at 0, the sample at 60 writes the detection with a
  duration of 60. With a sample of 1 g at 30 in between, the arming time is cleared and
  the sample at 60 only arms again.
\<close>

theorem highAcceleration_duration_gate_witness:
  "detectHighAcceleration (7 / 2) 60 60 60 (initial\<lparr>accelPeakTimestamp := Some 0\<rparr>)
     = ([], initial\<lparr>accelPeakTimestamp := Some 0,
                    highAccelerationDetected :=
                      Some \<lparr>ha_timestamp = 60, ha_magnitude = 7 / 2, ha_duration = 60\<rparr>\<rparr>)
   \<and> accelPeakTimestamp (snd (detectHighAcceleration 1 30 30 30
        (initial\<lparr>accelPeakTimestamp := Some 0\<rparr>))) = None
   \<and> accelPeakTimestamp (snd (run
        [AccelerometerInput (7 / 2, 0, 0)
           \<lparr>r_now = 0, r_check1 = 0, r_alert1 = 0, r_check2 = 0, r_alert2 = 0\<rparr>,
         AccelerometerInput (0, 0, 1)
           \<lparr>r_now = 30, r_check1 = 30, r_alert1 = 30, r_check2 = 30, r_alert2 = 30\<rparr>,
         AccelerometerInput (7 / 2, 0, 0)
           \<lparr>r_now = 60, r_check1 = 60, r_alert1 = 60, r_check2 = 60, r_alert2 = 60\<rparr>]
        initial)) = Some 60
   \<and> highAccelerationDetected (snd (run
        [AccelerometerInput (7 / 2, 0, 0)
           \<lparr>r_now = 0, r_check1 = 0, r_alert1 = 0, r_check2 = 0, r_alert2 = 0\<rparr>,
         AccelerometerInput (0, 0, 1)
           \<lparr>r_now = 30, r_check1 = 30, r_alert1 = 30, r_check2 = 30, r_alert2 = 30\<rparr>,
         AccelerometerInput (7 / 2, 0, 0)
           \<lparr>r_now = 60, r_check1 = 60, r_alert1 = 60, r_check2 = 60, r_alert2 = 60\<rparr>]
        initial)) = None
   \<and> highAccelerationDetected (snd (run
        [AccelerometerInput (7 / 2, 0, 0)
           \<lparr>r_now = 0, r_check1 = 0, r_alert1 = 0, r_check2 = 0, r_alert2 = 0\<rparr>,
         AccelerometerInput (7 / 2, 0, 0)
           \<lparr>r_now = 60, r_check1 = 60, r_alert1 = 60, r_check2 = 60, r_alert2 = 60\<rparr>]
        initial))
     = Some \<lparr>ha_timestamp = 60, ha_magnitude = 7 / 2, ha_duration = 60\<rparr>"
  (is "?a \<and> ?b \<and> accelPeakTimestamp (snd (run ?ins initial)) = _ \<and> ?d \<and> ?e")
proof -
  let ?S = "initial\<lparr>accelPeakTimestamp := Some 0\<rparr>"
  note th = highAcceleration_duration_gate [of "7 / 2" ?S 0 60 60 60 ?ins 60]
  note tl = highAcceleration_duration_gate [of 1 ?S 0 30 30 30 "[]" 0]
  have "detectHighAcceleration (7 / 2) 60 60 60 ?S
      = checkCombinedConditions 60 60
          (?S\<lparr>highAccelerationDetected :=
                Some \<lparr>ha_timestamp = 60, ha_magnitude = 7 / 2, ha_duration = 60 - 0\<rparr>\<rparr>)"
    by (rule th [THEN conjunct1, rule_format]) simp
  then have a: ?a
    by (simp add: checkCombinedConditions_def active_defs initial_def)
  have b: ?b
    by (rule tl [THEN conjunct2, THEN conjunct2, THEN conjunct1, rule_format]) simp
  have "accelPeakTimestamp (snd (run ?ins initial)) = armingTime (motionTrace ?ins)"
    by (rule th [THEN conjunct2, THEN conjunct2, THEN conjunct2, THEN conjunct2,
          THEN conjunct1])
  then have c: "accelPeakTimestamp (snd (run ?ins initial)) = Some 60"
    by (simp add: motionTrace_def map_filter_simps armingTime_def thresholds
        magnitudeG_x_axis magnitudeG_z_axis)
  have d: ?d and e: ?e
    by (simp_all add: eval_defs)
  show ?thesis
    using a b c d e by (intro conjI)
qed

text \<open>
  C4. The tilt of a motion sample is the larger of the absolute pitch and roll, in
  degrees. For a sample whose tilt is at least 30 degrees, whatever the state of the
  engine, both motion handlers write the tilt detection with the tilt as value and the
  handler's reading as timestamp, right after the acceleration detector has run, and
  hand the state to the correlation check: the detection is active at the sample's
  reading without any earlier sample, and it is what the handler leaves behind unless
  the correlation check, finding the other two detections active as well, consumes it
  at once.
\<close>

theorem highTilt_immediate:
  assumes "tilt x y z \<ge> 30"
  shows "tilt x y z
       = max \<bar>- atan2 y (sqrt (x * x + z * z))\<bar> \<bar>atan2 x (sqrt (y * y + z * z))\<bar> * (180 / pi)
     \<and> handleAccelerometer (x, y, z) r s
       = (fst (detectHighAcceleration (magnitudeG x y z) (r_now r) (r_check1 r) (r_alert1 r) s)
            @ fst (checkCombinedConditions (r_check2 r) (r_alert2 r)
                ((snd (detectHighAcceleration (magnitudeG x y z) (r_now r) (r_check1 r)
                        (r_alert1 r) s))
                   \<lparr>highTiltDetected := Some \<lparr>ht_timestamp = r_now r, ht_tilt = tilt x y z\<rparr>\<rparr>)),
          snd (checkCombinedConditions (r_check2 r) (r_alert2 r)
                ((snd (detectHighAcceleration (magnitudeG x y z) (r_now r) (r_check1 r)
                        (r_alert1 r) s))
                   \<lparr>highTiltDetected := Some \<lparr>ht_timestamp = r_now r, ht_tilt = tilt x y z\<rparr>\<rparr>)))
     \<and> handleDeviceMotion
          \<lparr>accelerationIncludingGravity = Some (x, y, z), acceleration = other\<rparr> r s
       = handleAccelerometer (x, y, z) r s
     \<and> handleDeviceMotion
          \<lparr>accelerationIncludingGravity = None, acceleration = Some (x, y, z)\<rparr> r s
       = handleAccelerometer (x, y, z) r s
     \<and> isHighTiltActive (r_now r)
          ((snd (detectHighAcceleration (magnitudeG x y z) (r_now r) (r_check1 r)
                  (r_alert1 r) s))
             \<lparr>highTiltDetected := Some \<lparr>ht_timestamp = r_now r, ht_tilt = tilt x y z\<rparr>\<rparr>)
     \<and> (\<not> (isSpeedDropActive (r_check2 r)
               (snd (detectHighAcceleration (magnitudeG x y z) (r_now r) (r_check1 r)
                       (r_alert1 r) s))
             \<and> isHighAccelerationActive (r_check2 r)
               (snd (detectHighAcceleration (magnitudeG x y z) (r_now r) (r_check1 r)
                       (r_alert1 r) s))
             \<and> r_check2 r - r_now r < 2000)
        \<longrightarrow> highTiltDetected (snd (handleAccelerometer (x, y, z) r s))
              = Some \<lparr>ht_timestamp = r_now r, ht_tilt = tilt x y z\<rparr>
            \<and> isHighTiltActive (r_now r) (snd (handleAccelerometer (x, y, z) r s)))"
proof -
  let ?s1 = "snd (detectHighAcceleration (magnitudeG x y z) (r_now r) (r_check1 r) (r_alert1 r) s)"
  let ?S = "?s1\<lparr>highTiltDetected := Some \<lparr>ht_timestamp = r_now r, ht_tilt = tilt x y z\<rparr>\<rparr>"
  have formula: "tilt x y z
       = max \<bar>- atan2 y (sqrt (x * x + z * z))\<bar> \<bar>atan2 x (sqrt (y * y + z * z))\<bar> * (180 / pi)"
    by (simp add: tilt_def pitch_def roll_def)
  have dt: "detectHighTilt (tilt x y z) (r_now r) (r_check2 r) (r_alert2 r) ?s1
      = checkCombinedConditions (r_check2 r) (r_alert2 r) ?S"
    using assms by (simp add: detectHighTilt_def thresholds)
  have acc: "handleAccelerometer (x, y, z) r s
       = (fst (detectHighAcceleration (magnitudeG x y z) (r_now r) (r_check1 r) (r_alert1 r) s)
            @ fst (checkCombinedConditions (r_check2 r) (r_alert2 r) ?S),
          snd (checkCombinedConditions (r_check2 r) (r_alert2 r) ?S))"
    by (simp add: handleAccelerometer_def motionPass_def Let_def split_beta dt)
  have dm1: "handleDeviceMotion
          \<lparr>accelerationIncludingGravity = Some (x, y, z), acceleration = other\<rparr> r s
       = handleAccelerometer (x, y, z) r s"
    and dm2: "handleDeviceMotion
          \<lparr>accelerationIncludingGravity = None, acceleration = Some (x, y, z)\<rparr> r s
       = handleAccelerometer (x, y, z) r s"
    by (simp_all add: handleDeviceMotion_def handleAccelerometer_def)
  have active: "isHighTiltActive (r_now r) ?S"
    by (simp add: isHighTiltActive_def thresholds)
  have left: "highTiltDetected (snd (handleAccelerometer (x, y, z) r s))
              = Some \<lparr>ht_timestamp = r_now r, ht_tilt = tilt x y z\<rparr>
            \<and> isHighTiltActive (r_now r) (snd (handleAccelerometer (x, y, z) r s))"
    if "\<not> (isSpeedDropActive (r_check2 r) ?s1 \<and> isHighAccelerationActive (r_check2 r) ?s1
        \<and> r_check2 r - r_now r < 2000)"
  proof -
    have "\<not> (isSpeedDropActive (r_check2 r) ?S \<and> isHighAccelerationActive (r_check2 r) ?S
        \<and> isHighTiltActive (r_check2 r) ?S)"
      using that by (auto simp add: active_defs thresholds)
    then have "checkCombinedConditions (r_check2 r) (r_alert2 r) ?S = ([], ?S)"
      by (rule checkCombinedConditions_idle)
    then show ?thesis
      by (simp add: acc isHighTiltActive_def thresholds)
  qed
  show ?thesis
    using formula acc dm1 dm2 active left by (intro conjI impI) simp_all
qed

text \<open>
  A single sample of 45 degrees on the fresh engine, below 3 g: the tilt detection is
  there at once.
\<close>

theorem highTilt_immediate_witness:
  "tilt 1 0 1 \<ge> 30
   \<and> handleAccelerometer (1, 0, 1)
       \<lparr>r_now = 700, r_check1 = 700, r_alert1 = 700, r_check2 = 700, r_alert2 = 700\<rparr> initial
     = ([], initial\<lparr>highTiltDetected := Some \<lparr>ht_timestamp = 700, ht_tilt = 45\<rparr>\<rparr>)
   \<and> isHighTiltActive 700
       (snd (handleAccelerometer (1, 0, 1)
          \<lparr>r_now = 700, r_check1 = 700, r_alert1 = 700, r_check2 = 700, r_alert2 = 700\<rparr>
          initial))"
  (is "_ \<and> handleAccelerometer _ ?r _ = _ \<and> _")
proof -
  have t: "tilt 1 0 1 \<ge> 30" by (simp add: tilt_45)
  have d: "detectHighAcceleration (magnitudeG 1 0 1) 700 700 700 initial = ([], initial)"
    using magnitudeG_45 by (simp add: detectHighAcceleration_def thresholds initial_def)
  have sd: "speedDropDetected initial = None" by (simp add: initial_def)
  note th = highTilt_immediate [OF t, of ?r initial]
  have "highTiltDetected (snd (handleAccelerometer (1, 0, 1) ?r initial))
          = Some \<lparr>ht_timestamp = r_now ?r, ht_tilt = tilt 1 0 1\<rparr>
        \<and> isHighTiltActive (r_now ?r) (snd (handleAccelerometer (1, 0, 1) ?r initial))"
    by (rule th [THEN conjunct2, THEN conjunct2, THEN conjunct2, THEN conjunct2,
          THEN conjunct2, rule_format])
      (simp add: d isSpeedDropActive_def sd)
  moreover have "handleAccelerometer (1, 0, 1) ?r initial
      = ([], initial\<lparr>highTiltDetected := Some \<lparr>ht_timestamp = 700, ht_tilt = 45\<rparr>\<rparr>)"
    using th [THEN conjunct2, THEN conjunct1]
    by (simp add: d tilt_45 checkCombinedConditions_def active_defs sd)
  ultimately show ?thesis
    using t by simp
qed

text \<open>
  C5. For each of the three detectors and every engine state (so also every reachable
  one), the activity test of the correlation check at the reading \<open>now\<close> is true
  exactly when the detection is present and \<open>now - timestamp < 2000\<close>; it is false as
  soon as \<open>now - timestamp \<ge> 2000\<close>. So whenever the test is true the timestamp of
  the detection lies less than 2000 ms before \<open>now\<close>; and in a state reached from the
  fresh engine by handlers whose readings never decrease, tested at a reading not before
  the last of them, it does not lie after \<open>now\<close> either.
\<close>

theorem isActive_window:
  "(isSpeedDropActive now s \<longleftrightarrow>
      (\<exists>d. speedDropDetected s = Some d \<and> now - sd_timestamp d < 2000))
   \<and> (isHighAccelerationActive now s \<longleftrightarrow>
      (\<exists>d. highAccelerationDetected s = Some d \<and> now - ha_timestamp d < 2000))
   \<and> (isHighTiltActive now s \<longleftrightarrow>
      (\<exists>d. highTiltDetected s = Some d \<and> now - ht_timestamp d < 2000))
   \<and> (\<forall>d. speedDropDetected s = Some d \<and> now - sd_timestamp d \<ge> 2000
         \<longrightarrow> \<not> isSpeedDropActive now s)
   \<and> (\<forall>d. highAccelerationDetected s = Some d \<and> now - ha_timestamp d \<ge> 2000
         \<longrightarrow> \<not> isHighAccelerationActive now s)
   \<and> (\<forall>d. highTiltDetected s = Some d \<and> now - ht_timestamp d \<ge> 2000
         \<longrightarrow> \<not> isHighTiltActive now s)
   \<and> COMBINED_ALERT_WINDOW_MS = 2000
   \<and> (sorted (List.map_filter handlerNow ins @ [now])
      \<longrightarrow> (isSpeedDropActive now (snd (run ins initial))
            \<longrightarrow> (\<exists>d. speedDropDetected (snd (run ins initial)) = Some d
                   \<and> 0 \<le> now - sd_timestamp d \<and> now - sd_timestamp d < 2000))
          \<and> (isHighAccelerationActive now (snd (run ins initial))
            \<longrightarrow> (\<exists>d. highAccelerationDetected (snd (run ins initial)) = Some d
                   \<and> 0 \<le> now - ha_timestamp d \<and> now - ha_timestamp d < 2000))
          \<and> (isHighTiltActive now (snd (run ins initial))
            \<longrightarrow> (\<exists>d. highTiltDetected (snd (run ins initial)) = Some d
                   \<and> 0 \<le> now - ht_timestamp d \<and> now - ht_timestamp d < 2000)))"
proof -
  have window: "(isSpeedDropActive now s \<longleftrightarrow>
      (\<exists>d. speedDropDetected s = Some d \<and> now - sd_timestamp d < 2000))
   \<and> (isHighAccelerationActive now s \<longleftrightarrow>
      (\<exists>d. highAccelerationDetected s = Some d \<and> now - ha_timestamp d < 2000))
   \<and> (isHighTiltActive now s \<longleftrightarrow>
      (\<exists>d. highTiltDetected s = Some d \<and> now - ht_timestamp d < 2000))
   \<and> (\<forall>d. speedDropDetected s = Some d \<and> now - sd_timestamp d \<ge> 2000
         \<longrightarrow> \<not> isSpeedDropActive now s)
   \<and> (\<forall>d. highAccelerationDetected s = Some d \<and> now - ha_timestamp d \<ge> 2000
         \<longrightarrow> \<not> isHighAccelerationActive now s)
   \<and> (\<forall>d. highTiltDetected s = Some d \<and> now - ht_timestamp d \<ge> 2000
         \<longrightarrow> \<not> isHighTiltActive now s)
   \<and> COMBINED_ALERT_WINDOW_MS = 2000"
    by (simp add: active_defs thresholds split: option.splits)
  have reach: "(isSpeedDropActive now (snd (run ins initial))
            \<longrightarrow> (\<exists>d. speedDropDetected (snd (run ins initial)) = Some d
                   \<and> 0 \<le> now - sd_timestamp d \<and> now - sd_timestamp d < 2000))
          \<and> (isHighAccelerationActive now (snd (run ins initial))
            \<longrightarrow> (\<exists>d. highAccelerationDetected (snd (run ins initial)) = Some d
                   \<and> 0 \<le> now - ha_timestamp d \<and> now - ha_timestamp d < 2000))
          \<and> (isHighTiltActive now (snd (run ins initial))
            \<longrightarrow> (\<exists>d. highTiltDetected (snd (run ins initial)) = Some d
                   \<and> 0 \<le> now - ht_timestamp d \<and> now - ht_timestamp d < 2000))"
    if "sorted (List.map_filter handlerNow ins @ [now])"
    using reachable_stamps [OF that]
    by (simp add: stampsUpTo_def active_defs thresholds split: option.splits)
  show ?thesis
    using window reach by blast
qed

text \<open>
  A tilt detection stamped 1000: still active at 2999, no longer at 3000, although the
  detection is still stored. The same for the detection that a sample of 45 degrees
  processed at 1000 leaves in the fresh engine.
\<close>

theorem isActive_window_witness:
  "isHighTiltActive 2999
     (initial\<lparr>highTiltDetected := Some \<lparr>ht_timestamp = 1000, ht_tilt = 35\<rparr>\<rparr>)
   \<and> \<not> isHighTiltActive 3000
     (initial\<lparr>highTiltDetected := Some \<lparr>ht_timestamp = 1000, ht_tilt = 35\<rparr>\<rparr>)
   \<and> \<not> isSpeedDropActive 3000
     (initial\<lparr>highTiltDetected := Some \<lparr>ht_timestamp = 1000, ht_tilt = 35\<rparr>\<rparr>)
   \<and> sorted (List.map_filter handlerNow
        [AccelerometerInput (1, 0, 1)
           \<lparr>r_now = 1000, r_check1 = 1000, r_alert1 = 1000, r_check2 = 1000,
            r_alert2 = 1000\<rparr>] @ [2999])
   \<and> isHighTiltActive 2999 (snd (run
        [AccelerometerInput (1, 0, 1)
           \<lparr>r_now = 1000, r_check1 = 1000, r_alert1 = 1000, r_check2 = 1000,
            r_alert2 = 1000\<rparr>] initial))
   \<and> highTiltDetected (snd (run
        [AccelerometerInput (1, 0, 1)
           \<lparr>r_now = 1000, r_check1 = 1000, r_alert1 = 1000, r_check2 = 1000,
            r_alert2 = 1000\<rparr>] initial))
     = Some \<lparr>ht_timestamp = 1000, ht_tilt = 45\<rparr>
   \<and> (\<exists>d. highTiltDetected (snd (run
        [AccelerometerInput (1, 0, 1)
           \<lparr>r_now = 1000, r_check1 = 1000, r_alert1 = 1000, r_check2 = 1000,
            r_alert2 = 1000\<rparr>] initial)) = Some d
         \<and> 0 \<le> 2999 - ht_timestamp d \<and> 2999 - ht_timestamp d < 2000)"
  (is "?a \<and> ?b \<and> ?c \<and> ?srt \<and> ?e
       \<and> highTiltDetected (snd (run ?ins initial)) = _ \<and> ?bound")
proof -
  let ?S = "initial\<lparr>highTiltDetected := Some \<lparr>ht_timestamp = 1000, ht_tilt = 35\<rparr>\<rparr>"
  have abc: "?a \<and> ?b \<and> ?c"
    using isActive_window [of 2999 ?S "[]"] isActive_window [of 3000 ?S "[]"]
    by (simp add: initial_def)
  have srt: ?srt by (simp add: map_filter_simps)
  have r: "run ?ins initial
      = ([], initial\<lparr>highTiltDetected := Some \<lparr>ht_timestamp = 1000, ht_tilt = 45\<rparr>\<rparr>)"
    using magnitudeG_45
    by (simp add: handleAccelerometer_def motionPass_def detectHighAcceleration_def
        detectHighTilt_def tilt_45 thresholds checkCombinedConditions_def active_defs
        initial_def)
  have e: ?e
    unfolding r by (simp add: isHighTiltActive_def thresholds)
  have bound: ?bound
    using isActive_window [of 2999 ?S ?ins] srt e by blast
  show ?thesis
    using abc srt e bound unfolding r by simp
qed

text \<open>
  C6, at the input on which the program departs from it. The Switch is turned off
  right after the screen has mounted, so the value it shows is false; then a drop from
  72 to 18 km/h arrives while 4 g and 90 degrees of tilt are held. The listeners still
  read the \<open>alertsEnabled\<close> of the first render: the combined alert is sent at
  100500 and \<open>lastAlertTimestamp\<close> is written, where the claim has the dispatcher do
  nothing. Whatever the host events, the \<open>alertsEnabled\<close> that the listeners read
  stays true.
\<close>

theorem alert_sent_with_switch_off:
  "renderedAlertsEnabled (snd (hostRun [SwitchChanged] mounted)) = False
   \<and> hostRun
     [SwitchChanged,
      Delivered (LocationInput \<lparr>coords_latitude = 12, coords_longitude = 77,
        coords_speed = Some 20, loc_timestamp = 100000\<rparr> 100000 100000 100000),
      Delivered (AccelerometerInput (4, 0, 0) \<lparr>r_now = 100100, r_check1 = 100100,
        r_alert1 = 100100, r_check2 = 100100, r_alert2 = 100100\<rparr>),
      Delivered (AccelerometerInput (4, 0, 0) \<lparr>r_now = 100200, r_check1 = 100200,
        r_alert1 = 100200, r_check2 = 100200, r_alert2 = 100200\<rparr>),
      Delivered (LocationInput \<lparr>coords_latitude = 12, coords_longitude = 77,
        coords_speed = Some 5, loc_timestamp = 100500\<rparr> 100500 100500 100500)]
     mounted
   = ([AlertSent 100500 (CombinedMessage (Some 54) (Some 4) (Some 90) (Some (12, 77)))
         (combinedData (initial\<lparr>lastKnownCoordinates := Some \<lparr>latitude = 12, longitude = 77\<rparr>\<rparr>))],
      \<lparr>renderedAlertsEnabled = False,
       listeners = initial\<lparr>lastSpeed := Some 18, lastLocationTimestamp := Some 100500,
              accelPeakTimestamp := Some 100100, lastAlertTimestamp := 100500,
              lastKnownCoordinates := Some \<lparr>latitude = 12, longitude = 77\<rparr>\<rparr>\<rparr>)
   \<and> alertsEnabled (listeners (snd (hostRun hs mounted)))"
proof -
  have "alertsEnabled (listeners (snd (hostRun hs mounted)))"
    by (simp add: hostRun_alertsEnabled mounted_def initial_def)
  then show ?thesis
    by (simp add: mounted_def eval_defs)
qed

text \<open>
  C7, at the input on which the program departs from it. An alert is dispatched at
  100500 and the message provider fails on the server, which answers the request with
  status 500 and \<^verbatim>\<open>success: false\<close>. The request resolves with that response,
  which the dispatcher does not read: no dialog is shown, the run emits the alert and
  nothing else, where the claim has the failure surfaced. When the request is rejected
  instead, the dialog is shown. In both cases \<open>lastAlertTimestamp\<close> stays 100500.
\<close>

theorem failed_delivery_not_shown:
  "send_alert (ProviderError ''Authentication Error'')
     = \<lparr>resp_status = 500, resp_success = False, resp_text = ''Authentication Error''\<rparr>
   \<and> run
     [LocationInput \<lparr>coords_latitude = 12, coords_longitude = 77, coords_speed = Some 20,
                     loc_timestamp = 100000\<rparr> 100000 100000 100000,
      AccelerometerInput (4, 0, 0) \<lparr>r_now = 100100, r_check1 = 100100, r_alert1 = 100100,
                                    r_check2 = 100100, r_alert2 = 100100\<rparr>,
      AccelerometerInput (4, 0, 0) \<lparr>r_now = 100200, r_check1 = 100200, r_alert1 = 100200,
                                    r_check2 = 100200, r_alert2 = 100200\<rparr>,
      LocationInput \<lparr>coords_latitude = 12, coords_longitude = 77, coords_speed = Some 5,
                     loc_timestamp = 100500\<rparr> 100500 100500 100500,
      FetchSettled (Resolved (send_alert (ProviderError ''Authentication Error'')))]
     initial
   = ([AlertSent 100500 (CombinedMessage (Some 54) (Some 4) (Some 90) (Some (12, 77)))
         (combinedData (initial\<lparr>lastKnownCoordinates := Some \<lparr>latitude = 12, longitude = 77\<rparr>\<rparr>))],
      initial\<lparr>lastSpeed := Some 18, lastLocationTimestamp := Some 100500,
              accelPeakTimestamp := Some 100100, lastAlertTimestamp := 100500,
              lastKnownCoordinates := Some \<lparr>latitude = 12, longitude = 77\<rparr>\<rparr>)
   \<and> run
     [LocationInput \<lparr>coords_latitude = 12, coords_longitude = 77, coords_speed = Some 20,
                     loc_timestamp = 100000\<rparr> 100000 100000 100000,
      AccelerometerInput (4, 0, 0) \<lparr>r_now = 100100, r_check1 = 100100, r_alert1 = 100100,
                                    r_check2 = 100100, r_alert2 = 100100\<rparr>,
      AccelerometerInput (4, 0, 0) \<lparr>r_now = 100200, r_check1 = 100200, r_alert1 = 100200,
                                    r_check2 = 100200, r_alert2 = 100200\<rparr>,
      LocationInput \<lparr>coords_latitude = 12, coords_longitude = 77, coords_speed = Some 5,
                     loc_timestamp = 100500\<rparr> 100500 100500 100500,
      FetchSettled (Rejected (Some ''Network request failed''))]
     initial
   = ([AlertSent 100500 (CombinedMessage (Some 54) (Some 4) (Some 90) (Some (12, 77)))
         (combinedData (initial\<lparr>lastKnownCoordinates := Some \<lparr>latitude = 12, longitude = 77\<rparr>\<rparr>)),
       SmsErrorShown ''Network request failed''],
      initial\<lparr>lastSpeed := Some 18, lastLocationTimestamp := Some 100500,
              accelPeakTimestamp := Some 100100, lastAlertTimestamp := 100500,
              lastKnownCoordinates := Some \<lparr>latitude = 12, longitude = 77\<rparr>\<rparr>)"
  by (simp add: eval_defs send_alert_def)

text \<open>
  The claim C8 as the specification states it fails: from the fresh engine, the second
  location sample below is out of order, by its own timestamp and by the clock reading
  at which it is processed, and yet it changes the engine state and creates a speed-drop
  detection.
\<close>

theorem out_of_order_sample_counterexample:
  "snd (run
     [LocationInput \<lparr>coords_latitude = 12, coords_longitude = 77, coords_speed = Some 20,
                     loc_timestamp = 1000\<rparr> 100000 100000 100000,
      LocationInput \<lparr>coords_latitude = 12, coords_longitude = 77, coords_speed = Some 5,
                     loc_timestamp = 900\<rparr> 99900 99900 99900]
     initial)
   = initial\<lparr>lastSpeed := Some 18, lastLocationTimestamp := Some 99900,
             speedDropDetected := Some \<lparr>sd_timestamp = 99900, sd_value = 54\<rparr>,
             lastKnownCoordinates := Some \<lparr>latitude = 12, longitude = 77\<rparr>\<rparr>
   \<and> snd (run
     [LocationInput \<lparr>coords_latitude = 12, coords_longitude = 77, coords_speed = Some 20,
                     loc_timestamp = 1000\<rparr> 100000 100000 100000]
     initial)
   = initial\<lparr>lastSpeed := Some 72, lastLocationTimestamp := Some 100000,
             lastKnownCoordinates := Some \<lparr>latitude = 12, longitude = 77\<rparr>\<rparr>"
  by (simp add: eval_defs)

text \<open>
  C8, as the code has it. No handler compares the time of a sample with the previous
  one of its stream, and the sample's own timestamp is never read. A location sample
  processed at a reading \<open>t\<close> that is not after the previous reading \<open>prevT\<close> passes
  the test on the time difference, so it writes the speed-drop detection whenever the
  drop is at least 40 km/h and the previous speed above 5, and in every case it
  overwrites the previous speed and the previous location time with its own. A tilt of
  at least 30 degrees overwrites the tilt detection whatever timestamp it had. Only the
  acceleration detector is unmoved by a sample of at least 3 g whose reading is not
  after the arming time: its duration test fails.
\<close>

theorem out_of_order_sample_processed:
  assumes "lastSpeed s = Some prevSpeed" "lastLocationTimestamp s = Some prevT" "t \<le> prevT"
  shows "lastSpeed (snd (handleLocationChange loc t c a s)) = Some (speedKmh loc)
     \<and> lastLocationTimestamp (snd (handleLocationChange loc t c a s)) = Some t
     \<and> handleLocationChange (loc\<lparr>loc_timestamp := ts\<rparr>) t c a s = handleLocationChange loc t c a s
     \<and> (prevSpeed - speedKmh loc \<ge> 40 \<and> prevSpeed > 5
        \<longrightarrow> handleLocationChange loc t c a s
             = (fst (checkCombinedConditions c a
                      ((storeCoordinates loc s)\<lparr>speedDropDetected :=
                         Some \<lparr>sd_timestamp = t, sd_value = prevSpeed - speedKmh loc\<rparr>\<rparr>)),
                (snd (checkCombinedConditions c a
                      ((storeCoordinates loc s)\<lparr>speedDropDetected :=
                         Some \<lparr>sd_timestamp = t, sd_value = prevSpeed - speedKmh loc\<rparr>\<rparr>)))
                  \<lparr>lastSpeed := Some (speedKmh loc), lastLocationTimestamp := Some t\<rparr>))
     \<and> (tv \<ge> 30
        \<longrightarrow> detectHighTilt tv t c a s
             = checkCombinedConditions c a
                 (s\<lparr>highTiltDetected := Some \<lparr>ht_timestamp = t, ht_tilt = tv\<rparr>\<rparr>))
     \<and> (accelPeakTimestamp s = Some p \<and> t \<le> p \<and> m \<ge> 3
        \<longrightarrow> detectHighAcceleration m t c a s = ([], s))"
proof -
  have prev: "lastSpeed (storeCoordinates loc s) = Some prevSpeed"
    "lastLocationTimestamp (storeCoordinates loc s) = Some prevT"
    using assms by (simp_all add: storeCoordinates_def)
  have gap: "real_of_int (t - prevT) / 1000 \<le> 1"
    using assms(3) by simp
  have upd: "lastSpeed (snd (handleLocationChange loc t c a s)) = Some (speedKmh loc)
     \<and> lastLocationTimestamp (snd (handleLocationChange loc t c a s)) = Some t"
    by (simp add: handleLocationChange_def Let_def split_beta)
  have created: "prevSpeed - speedKmh loc \<ge> 40 \<and> prevSpeed > 5
        \<longrightarrow> handleLocationChange loc t c a s
             = (fst (checkCombinedConditions c a
                      ((storeCoordinates loc s)\<lparr>speedDropDetected :=
                         Some \<lparr>sd_timestamp = t, sd_value = prevSpeed - speedKmh loc\<rparr>\<rparr>)),
                (snd (checkCombinedConditions c a
                      ((storeCoordinates loc s)\<lparr>speedDropDetected :=
                         Some \<lparr>sd_timestamp = t, sd_value = prevSpeed - speedKmh loc\<rparr>\<rparr>)))
                  \<lparr>lastSpeed := Some (speedKmh loc), lastLocationTimestamp := Some t\<rparr>)"
    using prev gap
    by (simp add: handleLocationChange_def Let_def split_beta thresholds)
  have tilted: "tv \<ge> 30
        \<longrightarrow> detectHighTilt tv t c a s
             = checkCombinedConditions c a
                 (s\<lparr>highTiltDetected := Some \<lparr>ht_timestamp = t, ht_tilt = tv\<rparr>\<rparr>)"
    by (simp add: detectHighTilt_def thresholds)
  have accel: "accelPeakTimestamp s = Some p \<and> t \<le> p \<and> m \<ge> 3
        \<longrightarrow> detectHighAcceleration m t c a s = ([], s)"
    by (simp add: detectHighAcceleration_def thresholds)
  show ?thesis
    using upd created tilted accel
    by (intro conjI) (simp_all add: handleLocationChange_timestamp)
qed

text \<open>
  After 72 km/h processed at the reading 100000 (sample stamped 1000), a sample of
  18 km/h stamped 900 and processed at the reading 99900: the time difference is
  negative, the detection of value 54 is written with the timestamp 99900, and the
  previous location time moves back to 99900.
\<close>

theorem out_of_order_sample_processed_witness:
  "handleLocationChange
     \<lparr>coords_latitude = 12, coords_longitude = 77, coords_speed = Some 5,
      loc_timestamp = 900\<rparr> 99900 99900 99900
     (initial\<lparr>lastSpeed := Some 72, lastLocationTimestamp := Some 100000\<rparr>)
   = ([], initial\<lparr>lastSpeed := Some 18, lastLocationTimestamp := Some 99900,
                  speedDropDetected := Some \<lparr>sd_timestamp = 99900, sd_value = 54\<rparr>,
                  lastKnownCoordinates := Some \<lparr>latitude = 12, longitude = 77\<rparr>\<rparr>)"
  (is "handleLocationChange ?loc _ _ _ ?S = _")
proof -
  have prev: "lastSpeed ?S = Some 72" "lastLocationTimestamp ?S = Some 100000"
    "(99900 :: int) \<le> 100000"
    by simp_all
  have v: "speedKmh ?loc = 18" by (simp add: speedKmh_def)
  note th = out_of_order_sample_processed [OF prev, of ?loc 99900 99900 0 0 0 0]
  have "handleLocationChange ?loc 99900 99900 99900 ?S
      = (fst (checkCombinedConditions 99900 99900
               ((storeCoordinates ?loc ?S)\<lparr>speedDropDetected :=
                  Some \<lparr>sd_timestamp = 99900, sd_value = 72 - speedKmh ?loc\<rparr>\<rparr>)),
         (snd (checkCombinedConditions 99900 99900
               ((storeCoordinates ?loc ?S)\<lparr>speedDropDetected :=
                  Some \<lparr>sd_timestamp = 99900, sd_value = 72 - speedKmh ?loc\<rparr>\<rparr>)))
           \<lparr>lastSpeed := Some (speedKmh ?loc), lastLocationTimestamp := Some 99900\<rparr>)"
    by (rule th [THEN conjunct2, THEN conjunct2, THEN conjunct2, THEN conjunct1, rule_format])
      (simp add: v)
  then show ?thesis
    by (simp add: v storeCoordinates_def checkCombinedConditions_def active_defs initial_def)
qed

text \<open>
  C10. When the correlation check fires, the state afterwards is the state before with
  the three detections set to absent and, if the dispatcher's gate was open, the last
  alert time set by the dispatcher: the arming time \<open>accelPeakTimestamp\<close>, the previous
  speed, the previous location time and the last known coordinates are unchanged. So if
  the acceleration detector was armed at \<open>p\<close>, the next sample of at least 3 g at a time
  \<open>t\<close> with \<open>t - p \<ge> 60\<close> creates a detection again at once, with the duration counted
  from the old \<open>p\<close>.
\<close>

theorem correlation_fire_frame:
  assumes "isSpeedDropActive now s" "isHighAccelerationActive now s" "isHighTiltActive now s"
  shows "snd (checkCombinedConditions now nowAlert s) =
       s\<lparr>speedDropDetected := None, highAccelerationDetected := None,
         highTiltDetected := None,
         lastAlertTimestamp :=
           (if alertsEnabled s \<and> nowAlert - lastAlertTimestamp s \<ge> ALERT_COOLDOWN_MS
            then nowAlert else lastAlertTimestamp s)\<rparr>
     \<and> accelPeakTimestamp (snd (checkCombinedConditions now nowAlert s)) = accelPeakTimestamp s
     \<and> lastSpeed (snd (checkCombinedConditions now nowAlert s)) = lastSpeed s
     \<and> lastLocationTimestamp (snd (checkCombinedConditions now nowAlert s))
         = lastLocationTimestamp s
     \<and> lastKnownCoordinates (snd (checkCombinedConditions now nowAlert s))
         = lastKnownCoordinates s
     \<and> (\<forall>p m t c a. accelPeakTimestamp s = Some p \<and> m \<ge> ACCEL_MAGNITUDE_THRESHOLD_G
            \<and> t - p \<ge> ACCEL_DURATION_THRESHOLD_MS
          \<longrightarrow> detectHighAcceleration m t c a (snd (checkCombinedConditions now nowAlert s))
              = ([], (snd (checkCombinedConditions now nowAlert s))
                       \<lparr>highAccelerationDetected :=
                          Some \<lparr>ha_timestamp = t, ha_magnitude = m, ha_duration = t - p\<rparr>\<rparr>)
            \<and> isHighAccelerationActive t
                (snd (detectHighAcceleration m t c a (snd (checkCombinedConditions now nowAlert s)))))"
proof -
  let ?s' = "snd (checkCombinedConditions now nowAlert s)"
  have st: "?s' = s\<lparr>speedDropDetected := None, highAccelerationDetected := None,
         highTiltDetected := None,
         lastAlertTimestamp :=
           (if alertsEnabled s \<and> nowAlert - lastAlertTimestamp s \<ge> ALERT_COOLDOWN_MS
            then nowAlert else lastAlertTimestamp s)\<rparr>"
    by (simp add: checkCombinedConditions_fire [OF assms] triggerAlert_state)
  have re: "detectHighAcceleration m t c a ?s'
              = ([], ?s'\<lparr>highAccelerationDetected :=
                          Some \<lparr>ha_timestamp = t, ha_magnitude = m, ha_duration = t - p\<rparr>\<rparr>)
            \<and> isHighAccelerationActive t (snd (detectHighAcceleration m t c a ?s'))"
    if "accelPeakTimestamp s = Some p" "m \<ge> ACCEL_MAGNITUDE_THRESHOLD_G"
      "t - p \<ge> ACCEL_DURATION_THRESHOLD_MS" for p m t c a
  proof -
    have pk: "accelPeakTimestamp ?s' = Some p"
      using that checkCombinedConditions_frame [of now nowAlert s] by simp
    have none: "speedDropDetected ?s' = None" by (subst st) simp
    have idle: "checkCombinedConditions c a
          (?s'\<lparr>highAccelerationDetected :=
                Some \<lparr>ha_timestamp = t, ha_magnitude = m, ha_duration = t - p\<rparr>\<rparr>)
        = ([], ?s'\<lparr>highAccelerationDetected :=
                Some \<lparr>ha_timestamp = t, ha_magnitude = m, ha_duration = t - p\<rparr>\<rparr>)"
      by (rule checkCombinedConditions_idle) (simp add: isSpeedDropActive_def none)
    have eq: "detectHighAcceleration m t c a ?s'
        = ([], ?s'\<lparr>highAccelerationDetected :=
                Some \<lparr>ha_timestamp = t, ha_magnitude = m, ha_duration = t - p\<rparr>\<rparr>)"
      using that pk idle by (simp add: detectHighAcceleration_def)
    show ?thesis
      by (simp add: eq isHighAccelerationActive_def thresholds)
  qed
  show ?thesis
    using st re checkCombinedConditions_frame [of now nowAlert s] by blast
qed

text \<open>
  Armed at 100100, all three detections active at 100500: the check fires and clears
  them, the arming time stays, and the sample of 4 g at 100600 creates a detection at
  once, with a duration of 500 ms.
\<close>

theorem correlation_fire_frame_witness:
  "snd (checkCombinedConditions 100500 100500
     (initial\<lparr>accelPeakTimestamp := Some 100100,
              speedDropDetected := Some \<lparr>sd_timestamp = 100500, sd_value = 54\<rparr>,
              highAccelerationDetected :=
                Some \<lparr>ha_timestamp = 100200, ha_magnitude = 4, ha_duration = 100\<rparr>,
              highTiltDetected := Some \<lparr>ht_timestamp = 100200, ht_tilt = 90\<rparr>\<rparr>))
     = initial\<lparr>accelPeakTimestamp := Some 100100, lastAlertTimestamp := 100500\<rparr>
   \<and> detectHighAcceleration 4 100600 100600 100600
       (initial\<lparr>accelPeakTimestamp := Some 100100, lastAlertTimestamp := 100500\<rparr>)
     = ([], initial\<lparr>accelPeakTimestamp := Some 100100, lastAlertTimestamp := 100500,
                    highAccelerationDetected :=
                      Some \<lparr>ha_timestamp = 100600, ha_magnitude = 4, ha_duration = 500\<rparr>\<rparr>)"
  (is "snd (checkCombinedConditions _ _ ?S) = ?S' \<and> _")
proof -
  have act: "isSpeedDropActive 100500 ?S" "isHighAccelerationActive 100500 ?S"
    "isHighTiltActive 100500 ?S"
    by (simp_all add: active_defs thresholds)
  note fr = correlation_fire_frame [OF act, of 100500]
  have st: "snd (checkCombinedConditions 100500 100500 ?S) = ?S'"
    using fr by (simp add: initial_def thresholds)
  note re = fr [THEN conjunct2, THEN conjunct2, THEN conjunct2, THEN conjunct2,
      THEN conjunct2, rule_format, of 100100 4 100600 100600 100600, THEN conjunct1]
  have "detectHighAcceleration 4 100600 100600 100600
          (snd (checkCombinedConditions 100500 100500 ?S))
        = ([], (snd (checkCombinedConditions 100500 100500 ?S))
                 \<lparr>highAccelerationDetected :=
                    Some \<lparr>ha_timestamp = 100600, ha_magnitude = 4,
                          ha_duration = 100600 - 100100\<rparr>\<rparr>)"
    by (rule re) (simp add: thresholds)
  then show ?thesis
    by (simp add: st)
qed

end
